theory Spec2Isabelle
  imports Complex_Main
begin

section \<open>Door2Dock bike collector (\<^verbatim>\<open>bike_collector.py\<close>)\<close>

text \<open>
  A shallow embedding of the collector: the station catalogue as the feed delivers it, the
  two SQLite tables, discovery, one collection cycle and the burst scheduler.

  What the model fixes:
  \<^item> Python's \<^verbatim>\<open>float\<close> is the type \<open>real\<close>: \<^verbatim>\<open>haversine\<close> is the formula of the source in
    exact arithmetic, rounding errors are not represented.
  \<^item> Strings are sequences of code points below 256.
  \<^item> A station of the catalogue is a record whose fields follow the accesses of the
    source: \<^verbatim>\<open>station["id"]\<close> and \<^verbatim>\<open>station["commonName"]\<close> are read with brackets
    everywhere, so they are plain fields; \<^verbatim>\<open>lat\<close>, \<^verbatim>\<open>lon\<close> and
    \<^verbatim>\<open>additionalProperties\<close> are read with \<^verbatim>\<open>.get\<close> somewhere, so they are optional,
    and a bracket access to a missing one raises \<^verbatim>\<open>KeyError\<close>.
  \<^item> A table is the list of its rows in rowid order; a transaction reaches the table at
    \<^verbatim>\<open>commit\<close> only, so a cycle that raises before its commit leaves the table as it was.
  \<^item> The outcome of an HTTP request and the reading of the clock are inputs.
  \<^item> A cycle returns, next to its value and the database, the list of what it did (the
    call of discovery, the request, the inserts, the commit); the burst returns its cycles
    and sleeps.
  \<^item> Standard output is not represented.
\<close>

subsection \<open>Configuration\<close>

definition IMPERIAL_LAT :: real where
  "IMPERIAL_LAT = 51.4988"

definition IMPERIAL_LON :: real where
  "IMPERIAL_LON = - 0.1749"

definition SEARCH_RADIUS_M :: real where
  "SEARCH_RADIUS_M = 800"

definition POLL_INTERVAL :: nat where
  "POLL_INTERVAL = 60"

subsection \<open>Values of the feed\<close>

text \<open>A scalar of the decoded JSON: the value (or the key) of one property pair.\<close>

datatype jval = JNull | JBool bool | JInt int | JStr string

text \<open>One entry of \<^verbatim>\<open>additionalProperties\<close>; either key of the pair may be missing.\<close>

record property =
  p_key :: "jval option"
  p_value :: "jval option"

record station =
  ident :: string
  commonName :: string
  lat :: "real option"
  lon :: "real option"
  additionalProperties :: "property list option"

text \<open>The exceptions the modelled code can raise.\<close>

datatype req_error = Timeout | ConnectionError | HTTPError nat | JSONDecodeError

datatype exn =
    RequestException req_error
  | TypeError
  | ValueError
  | KeyError string
  | OverflowError

text \<open>\<^verbatim>\<open>d.get(k, default)\<close>, for a lookup that already gave an option.\<close>

definition dict_get :: "'a option \<Rightarrow> 'a \<Rightarrow> 'a" where
  "dict_get found dflt = (case found of None \<Rightarrow> dflt | Some v \<Rightarrow> v)"

text \<open>Sequencing of computations that may raise.\<close>

definition and_then :: "exn + 'a \<Rightarrow> ('a \<Rightarrow> exn + 'b) \<Rightarrow> exn + 'b" where
  "and_then r f = (case r of Inl e \<Rightarrow> Inl e | Inr v \<Rightarrow> f v)"

subsection \<open>Python's \<^verbatim>\<open>int()\<close>\<close>

definition is_space :: "char \<Rightarrow> bool" where
  "is_space c \<longleftrightarrow> c \<in> set [CHR 0x09, CHR 0x0A, CHR 0x0B, CHR 0x0C, CHR 0x0D,
     CHR 0x1C, CHR 0x1D, CHR 0x1E, CHR 0x1F, CHR 0x20, CHR 0x85, CHR 0xA0]"

definition digit_value :: "char \<Rightarrow> nat option" where
  "digit_value c = map_of
     [(CHR ''0'', 0), (CHR ''1'', 1), (CHR ''2'', 2), (CHR ''3'', 3), (CHR ''4'', 4),
      (CHR ''5'', 5), (CHR ''6'', 6), (CHR ''7'', 7), (CHR ''8'', 8), (CHR ''9'', 9)] c"

text \<open>
  Decimal digits, single underscores allowed between two digits; the accumulator is the
  value read so far.
\<close>

fun digits_value :: "nat \<Rightarrow> string \<Rightarrow> nat option" where
  "digits_value acc [] = Some acc"
| "digits_value acc [c] =
     (case digit_value c of None \<Rightarrow> None | Some d \<Rightarrow> Some (10 * acc + d))"
| "digits_value acc (c # c' # cs) =
     (case digit_value c of
        Some d \<Rightarrow> digits_value (10 * acc + d) (c' # cs)
      | None \<Rightarrow>
          if c = CHR ''_'' \<and> digit_value c' \<noteq> None then digits_value acc (c' # cs)
          else None)"

definition strip :: "string \<Rightarrow> string" where
  "strip s = rev (dropWhile is_space (rev (dropWhile is_space s)))"

text \<open>The limit on the number of digits of a string converted to an integer.\<close>

definition MAX_STR_DIGITS :: nat where
  "MAX_STR_DIGITS = 4300"

definition unsigned_value :: "string \<Rightarrow> nat option" where
  "unsigned_value body =
     (case body of
        [] \<Rightarrow> None
      | c # _ \<Rightarrow>
          if digit_value c = None then None
          else if MAX_STR_DIGITS < length (filter (\<lambda>x. digit_value x \<noteq> None) body) then None
          else digits_value 0 body)"

definition int_of_string :: "string \<Rightarrow> int option" where
  "int_of_string s =
     (case strip s of
        [] \<Rightarrow> None
      | c # cs \<Rightarrow>
          if c = CHR ''-'' then map_option (\<lambda>n. - int n) (unsigned_value cs)
          else if c = CHR ''+'' then map_option int (unsigned_value cs)
          else map_option int (unsigned_value (c # cs)))"

definition py_int :: "jval \<Rightarrow> exn + int" where
  "py_int v =
     (case v of
        JNull \<Rightarrow> Inl TypeError
      | JBool b \<Rightarrow> Inr (if b then 1 else 0)
      | JInt n \<Rightarrow> Inr n
      | JStr s \<Rightarrow> (case int_of_string s of None \<Rightarrow> Inl ValueError | Some n \<Rightarrow> Inr n))"

subsection \<open>Helper functions of the source\<close>

definition radians :: "real \<Rightarrow> real" where
  "radians x = x * pi / 180"

text \<open>\<^verbatim>\<open>math.atan2(y, x)\<close> on the reals.\<close>

definition atan2 :: "real \<Rightarrow> real \<Rightarrow> real" where
  "atan2 y x =
     (if 0 < x then arctan (y / x)
      else if x < 0 then (if 0 \<le> y then arctan (y / x) + pi else arctan (y / x) - pi)
      else if 0 < y then pi / 2
      else if y < 0 then - pi / 2
      else 0)"

definition haversine :: "real \<Rightarrow> real \<Rightarrow> real \<Rightarrow> real \<Rightarrow> real" where
  "haversine lat1 lon1 lat2 lon2 =
     (let R = 6371000;
          phi1 = radians lat1;
          phi2 = radians lat2;
          dphi = radians (lat2 - lat1);
          dlambda = radians (lon2 - lon1);
          a = (sin (dphi / 2))\<^sup>2 + cos phi1 * cos phi2 * (sin (dlambda / 2))\<^sup>2
      in R * 2 * atan2 (sqrt a) (sqrt (1 - a)))"

text \<open>\<^verbatim>\<open>round(x)\<close> of Python 3: to the nearest integer, a tie to the even one.\<close>

definition py_round :: "real \<Rightarrow> int" where
  "py_round x =
     (let f = \<lfloor>x\<rfloor>; d = x - of_int f
      in if d < 1 / 2 then f
         else if 1 / 2 < d then f + 1
         else if even f then f
         else f + 1)"

definition recognised :: "string list" where
  "recognised = [''NbBikes'', ''NbEBikes'', ''NbEmptyDocks'', ''NbDocks'',
                 ''NbStandardBikes'', ''Installed'', ''Locked'']"

fun parse_properties_loop :: "(string \<rightharpoonup> jval) \<Rightarrow> property list \<Rightarrow> (string \<rightharpoonup> jval)" where
  "parse_properties_loop props [] = props"
| "parse_properties_loop props (p # ps) =
     (let key = dict_get (p_key p) (JStr '''');
          val = dict_get (p_value p) (JStr '''')
      in case key of
           JStr k \<Rightarrow>
             if k \<in> set recognised then parse_properties_loop (props(k \<mapsto> val)) ps
             else parse_properties_loop props ps
         | _ \<Rightarrow> parse_properties_loop props ps)"

definition parse_properties :: "property list \<Rightarrow> (string \<rightharpoonup> jval)" where
  "parse_properties additional_properties =
     parse_properties_loop Map.empty additional_properties"

subsection \<open>Feed client\<close>

text \<open>
  What one \<^verbatim>\<open>requests.get\<close> with its \<^verbatim>\<open>raise_for_status\<close> and \<^verbatim>\<open>json\<close> meets: no response
  (the library raises \<^verbatim>\<open>Timeout\<close> or \<^verbatim>\<open>ConnectionError\<close>), or a response with a status and
  a body. A body is text that does not decode, or a decoded value: the array of stations,
  or \<^verbatim>\<open>null\<close>, a truth value or a number, of which \<^verbatim>\<open>len\<close> raises \<^verbatim>\<open>TypeError\<close>. \<^verbatim>\<open>raise_for_status\<close> raises for the statuses 400 to 599;
  \<^verbatim>\<open>json\<close> raises the library's \<^verbatim>\<open>JSONDecodeError\<close>, a \<^verbatim>\<open>RequestException\<close> since
  requests 2.27.
\<close>

datatype payload = PArray "station list" | PNull | PBool bool | PNumber int

datatype body = NotJSON | JSON payload

datatype http_outcome = TimedOut | ConnectionFailed | Response nat body

definition fetch_all_stations :: "http_outcome \<Rightarrow> exn + station list" where
  "fetch_all_stations r =
     (case r of
        TimedOut \<Rightarrow> Inl (RequestException Timeout)
      | ConnectionFailed \<Rightarrow> Inl (RequestException ConnectionError)
      | Response status b \<Rightarrow>
          if 400 \<le> status \<and> status < 600 then Inl (RequestException (HTTPError status))
          else (case b of
                  NotJSON \<Rightarrow> Inl (RequestException JSONDecodeError)
                | JSON (PArray stations) \<Rightarrow> Inr stations
                | JSON _ \<Rightarrow> Inl TypeError))"

subsection \<open>The two tables\<close>

text \<open>A row of \<^verbatim>\<open>monitored_stations\<close>; \<^verbatim>\<open>station_id\<close> is its primary key.\<close>

record monitored =
  m_station_id :: string
  m_station_name :: string
  m_latitude :: real
  m_longitude :: real
  m_distance_m :: real

text \<open>
  A row of \<^verbatim>\<open>bike_availability\<close>. The autoincremented \<^verbatim>\<open>id\<close> is the position of the row
  in the table: rows are only ever appended.
\<close>

record reading =
  r_timestamp :: string
  r_station_id :: string
  r_station_name :: string
  r_available_bikes :: int
  r_standard_bikes :: int
  r_ebikes :: int
  r_empty_docks :: int
  r_total_docks :: int
  r_latitude :: real
  r_longitude :: real

record db =
  monitored_stations :: "monitored list"
  bike_availability :: "reading list"

text \<open>
  \<^verbatim>\<open>INSERT OR REPLACE\<close> by primary key: a row with the same key is deleted and the new row
  gets a fresh rowid, the largest of the table.
\<close>

definition upsert :: "monitored \<Rightarrow> monitored list \<Rightarrow> monitored list" where
  "upsert row tab = filter (\<lambda>x. m_station_id x \<noteq> m_station_id row) tab @ [row]"

text \<open>SQLite stores an integer of 64 bits; the binding of a larger one raises.\<close>

definition sqlite_integer :: "int \<Rightarrow> exn + int" where
  "sqlite_integer n = (if - (2 ^ 63) \<le> n \<and> n < 2 ^ 63 then Inr n else Inl OverflowError)"

subsection \<open>Station discovery\<close>

text \<open>An element of the list \<^verbatim>\<open>nearby\<close>.\<close>

record nearby =
  n_station_id :: string
  n_station_name :: string
  n_latitude :: real
  n_longitude :: real
  n_distance_m :: int
  n_total_docks :: jval
  n_available_bikes :: jval
  n_ebikes :: jval

text \<open>\<^verbatim>\<open>parse_properties(station.get("additionalProperties", []))\<close>, as both loops
  compute it.\<close>

definition station_props :: "station \<Rightarrow> (string \<rightharpoonup> jval)" where
  "station_props station = parse_properties (dict_get (additionalProperties station) [])"

text \<open>The distance of a station from the reference point; a missing coordinate counts
  as 0 (\<^verbatim>\<open>station.get("lat", 0)\<close>).\<close>

definition station_distance :: "station \<Rightarrow> real" where
  "station_distance station =
     (let la = dict_get (lat station) 0;
          lo = dict_get (lon station) 0
      in haversine IMPERIAL_LAT IMPERIAL_LON la lo)"

text \<open>The dictionary appended to \<^verbatim>\<open>nearby\<close> for a station within the radius.\<close>

definition nearby_entry :: "station \<Rightarrow> nearby" where
  "nearby_entry station =
     (let props = station_props station
      in \<lparr>n_station_id = ident station,
          n_station_name = commonName station,
          n_latitude = dict_get (lat station) 0,
          n_longitude = dict_get (lon station) 0,
          n_distance_m = py_round (station_distance station),
          n_total_docks = dict_get (props ''NbDocks'') (JStr ''?''),
          n_available_bikes = dict_get (props ''NbBikes'') (JStr ''?''),
          n_ebikes = dict_get (props ''NbEBikes'') (JStr ''?'')\<rparr>)"

text \<open>The first loop of \<^verbatim>\<open>discover_stations\<close>; the accumulator is \<^verbatim>\<open>nearby\<close>.\<close>

fun nearby_loop :: "nearby list \<Rightarrow> station list \<Rightarrow> nearby list" where
  "nearby_loop acc [] = acc"
| "nearby_loop acc (station # rest) =
     (if station_distance station \<le> SEARCH_RADIUS_M
      then nearby_loop (acc @ [nearby_entry station]) rest
      else nearby_loop acc rest)"

definition monitored_of :: "nearby \<Rightarrow> monitored" where
  "monitored_of s =
     \<lparr>m_station_id = n_station_id s,
      m_station_name = n_station_name s,
      m_latitude = n_latitude s,
      m_longitude = n_longitude s,
      m_distance_m = of_int (n_distance_m s)\<rparr>"

text \<open>The second loop: one \<^verbatim>\<open>INSERT OR REPLACE\<close> for each element of \<^verbatim>\<open>nearby\<close>.\<close>

fun upsert_loop :: "monitored list \<Rightarrow> nearby list \<Rightarrow> monitored list" where
  "upsert_loop tab [] = tab"
| "upsert_loop tab (s # ss) = upsert_loop (upsert (monitored_of s) tab) ss"

text \<open>
  \<^verbatim>\<open>discover_stations\<close>: the value returned (or the exception raised) and the database
  afterwards. Only a \<^verbatim>\<open>RequestException\<close> of the fetch is caught.
\<close>

definition discover_stations :: "http_outcome \<Rightarrow> db \<Rightarrow> (exn + nearby list) \<times> db" where
  "discover_stations response d =
     (case fetch_all_stations response of
        Inl (RequestException e) \<Rightarrow> (Inr [], d)
      | Inl e \<Rightarrow> (Inl e, d)
      | Inr all_stations \<Rightarrow>
          (let found = sort_key n_distance_m (nearby_loop [] all_stations)
           in (Inr found,
               d\<lparr>monitored_stations := upsert_loop (monitored_stations d) found\<rparr>)))"

subsection \<open>Data collection\<close>

definition get_monitored_station_ids :: "db \<Rightarrow> string list" where
  "get_monitored_station_ids d = map m_station_id (monitored_stations d)"

text \<open>The dictionary \<^verbatim>\<open>{s["id"]: s for s in all_stations}\<close>: a later station replaces an
  earlier one of the same identifier.\<close>

definition station_map_of :: "station list \<Rightarrow> (string \<rightharpoonup> station)" where
  "station_map_of all_stations = foldl (\<lambda>m s. m(ident s \<mapsto> s)) Map.empty all_stations"

text \<open>The test before the insert: \<^verbatim>\<open>Installed == "false" or Locked == "true"\<close>.\<close>

definition not_serviceable :: "(string \<rightharpoonup> jval) \<Rightarrow> bool" where
  "not_serviceable props \<longleftrightarrow>
     props ''Installed'' = Some (JStr ''false'') \<or> props ''Locked'' = Some (JStr ''true'')"

text \<open>
  The parameters of the \<^verbatim>\<open>INSERT\<close>, evaluated in the order of the source: the five
  conversions, then the two coordinates, then the binding of the integers.
\<close>

definition reading_of :: "string \<Rightarrow> station \<Rightarrow> (string \<rightharpoonup> jval) \<Rightarrow> exn + reading" where
  "reading_of now_utc station props =
     and_then (py_int (dict_get (props ''NbBikes'') (JInt 0))) (\<lambda>bikes.
     and_then (py_int (dict_get (props ''NbStandardBikes'') (JInt 0))) (\<lambda>standard.
     and_then (py_int (dict_get (props ''NbEBikes'') (JInt 0))) (\<lambda>ebikes.
     and_then (py_int (dict_get (props ''NbEmptyDocks'') (JInt 0))) (\<lambda>empty_docks.
     and_then (py_int (dict_get (props ''NbDocks'') (JInt 0))) (\<lambda>docks.
     and_then (case lat station of None \<Rightarrow> Inl (KeyError ''lat'') | Some v \<Rightarrow> Inr v) (\<lambda>la.
     and_then (case lon station of None \<Rightarrow> Inl (KeyError ''lon'') | Some v \<Rightarrow> Inr v) (\<lambda>lo.
     and_then (sqlite_integer bikes) (\<lambda>bikes.
     and_then (sqlite_integer standard) (\<lambda>standard.
     and_then (sqlite_integer ebikes) (\<lambda>ebikes.
     and_then (sqlite_integer empty_docks) (\<lambda>empty_docks.
     and_then (sqlite_integer docks) (\<lambda>docks.
       Inr \<lparr>r_timestamp = now_utc,
            r_station_id = ident station,
            r_station_name = commonName station,
            r_available_bikes = bikes,
            r_standard_bikes = standard,
            r_ebikes = ebikes,
            r_empty_docks = empty_docks,
            r_total_docks = docks,
            r_latitude = la,
            r_longitude = lo\<rparr>))))))))))))"

text \<open>
  The loop over the monitored identifiers. The accumulator holds the rows inserted so far
  in the open transaction; an exception leaves the loop with them.
\<close>

fun collect_loop ::
  "string \<Rightarrow> (string \<rightharpoonup> station) \<Rightarrow> reading list \<Rightarrow> string list
     \<Rightarrow> (exn \<times> reading list) + reading list" where
  "collect_loop now_utc station_map inserted [] = Inr inserted"
| "collect_loop now_utc station_map inserted (sid # sids) =
     (case station_map sid of
        None \<Rightarrow> collect_loop now_utc station_map inserted sids
      | Some station \<Rightarrow>
          (let props = station_props station
           in if not_serviceable props then collect_loop now_utc station_map inserted sids
              else (case reading_of now_utc station props of
                      Inl e \<Rightarrow> Inl (e, inserted)
                    | Inr row \<Rightarrow> collect_loop now_utc station_map (inserted @ [row]) sids)))"

text \<open>What a cycle does, in order.\<close>

datatype event = Discovery | Fetch | Insert reading | Commit

text \<open>The inputs of one cycle: the answer to the request of the discovery, should it
  run, the answer to the request of the collection, and the clock.\<close>

record cycle_input =
  discovery_response :: http_outcome
  collection_response :: http_outcome
  utc_now :: string

text \<open>\<^verbatim>\<open>collect_once\<close> from the reading of the clock on, for the identifiers loaded.\<close>

definition collect_from ::
  "cycle_input \<Rightarrow> db \<Rightarrow> string list \<Rightarrow> (exn + string) \<times> db \<times> event list" where
  "collect_from inp d station_ids =
     (let now_utc = utc_now inp
      in case fetch_all_stations (collection_response inp) of
           Inl (RequestException e) \<Rightarrow> (Inr ''error'', d, [Fetch])
         | Inl e \<Rightarrow> (Inl e, d, [Fetch])
         | Inr all_stations \<Rightarrow>
             (case collect_loop now_utc (station_map_of all_stations) [] station_ids of
                Inl (e, inserted) \<Rightarrow> (Inl e, d, Fetch # map Insert inserted)
              | Inr inserted \<Rightarrow>
                  (Inr ''ok'',
                   d\<lparr>bike_availability := bike_availability d @ inserted\<rparr>,
                   Fetch # map Insert inserted @ [Commit])))"

definition collect_once :: "cycle_input \<Rightarrow> db \<Rightarrow> (exn + string) \<times> db \<times> event list" where
  "collect_once inp d =
     (let station_ids = get_monitored_station_ids d
      in if station_ids = [] then
           (case discover_stations (discovery_response inp) d of
              (Inl e, d') \<Rightarrow> (Inl e, d', [Discovery])
            | (Inr found, d') \<Rightarrow>
                (let station_ids = get_monitored_station_ids d'
                 in if station_ids = [] then (Inr ''error'', d', [Discovery])
                    else (case collect_from inp d' station_ids of
                            (res, d'', evs) \<Rightarrow> (res, d'', Discovery # evs))))
         else collect_from inp d station_ids)"

subsection \<open>Burst mode\<close>

text \<open>What the scheduler does: a call of \<^verbatim>\<open>collect_once\<close> with what it gave, or a
  \<^verbatim>\<open>time.sleep\<close> with its seconds.\<close>

datatype step = Cycle "exn + string" | Sleep nat

text \<open>
  The loop \<^verbatim>\<open>for i in range(cycles)\<close>; the inputs of cycle \<open>i\<close> are \<open>inputs i\<close>. An exception
  of a cycle ends the loop: \<^verbatim>\<open>run_burst\<close> catches nothing.
\<close>

fun burst_loop ::
  "(nat \<Rightarrow> cycle_input) \<Rightarrow> int \<Rightarrow> db \<Rightarrow> step list \<Rightarrow> nat list
     \<Rightarrow> (exn + unit) \<times> db \<times> step list" where
  "burst_loop inputs cycles d steps [] = (Inr (), d, steps)"
| "burst_loop inputs cycles d steps (i # rest) =
     (case collect_once (inputs i) d of
        (Inl e, d', evs) \<Rightarrow> (Inl e, d', steps @ [Cycle (Inl e)])
      | (Inr outcome, d', evs) \<Rightarrow>
          burst_loop inputs cycles d'
            (steps @ [Cycle (Inr outcome)] @ (if int i < cycles - 1 then [Sleep 60] else []))
            rest)"

definition run_burst ::
  "(nat \<Rightarrow> cycle_input) \<Rightarrow> int \<Rightarrow> db \<Rightarrow> (exn + unit) \<times> db \<times> step list" where
  "run_burst inputs cycles d = burst_loop inputs cycles d [] [0..<nat cycles]"

subsection \<open>Notions used to state the properties\<close>

text \<open>The rows a run of the loop has inserted, whether it returned or raised.\<close>

definition loop_rows :: "(exn \<times> reading list) + reading list \<Rightarrow> reading list" where
  "loop_rows r = (case r of Inl (e, rows) \<Rightarrow> rows | Inr rows \<Rightarrow> rows)"

text \<open>
  The row is the reading built for one of the identifiers: its station is in the
  dictionary under that identifier and passes the test before the insert.
\<close>

definition row_from ::
  "string \<Rightarrow> (string \<rightharpoonup> station) \<Rightarrow> string list \<Rightarrow> reading \<Rightarrow> bool" where
  "row_from now_utc station_map ids row \<longleftrightarrow>
     (\<exists>sid \<in> set ids. \<exists>station. station_map sid = Some station
        \<and> \<not> not_serviceable (station_props station)
        \<and> reading_of now_utc station (station_props station) = Inr row)"

text \<open>The same, for the catalogue that the request of the collection delivered.\<close>

definition cycle_rows :: "cycle_input \<Rightarrow> string list \<Rightarrow> reading \<Rightarrow> bool" where
  "cycle_rows inp ids row \<longleftrightarrow>
     (\<exists>stations. fetch_all_stations (collection_response inp) = Inr stations
        \<and> row_from (utc_now inp) (station_map_of stations) ids row)"

text \<open>
  What a property bag holds for a key: the value of the last pair with this key, the
  empty string when that pair has no value; nothing when no pair has the key.
\<close>

definition bag_value :: "string \<Rightarrow> property list \<Rightarrow> jval option" where
  "bag_value k ps =
     (case filter (\<lambda>p. p_key p = Some (JStr k)) ps of
        [] \<Rightarrow> None
      | q # qs \<Rightarrow> Some (dict_get (p_value (last (q # qs))) (JStr '''')))"

text \<open>The keys whose values the insert converts with \<^verbatim>\<open>int\<close>.\<close>

definition numeric_keys :: "string list" where
  "numeric_keys = [''NbBikes'', ''NbStandardBikes'', ''NbEBikes'', ''NbEmptyDocks'', ''NbDocks'']"

text \<open>The bag of a station holds the exact string \<^verbatim>\<open>"false"\<close> for \<^verbatim>\<open>Installed\<close> or the
  exact string \<^verbatim>\<open>"true"\<close> for \<^verbatim>\<open>Locked\<close>.\<close>

definition flagged :: "station \<Rightarrow> bool" where
  "flagged station \<longleftrightarrow>
     bag_value ''Installed'' (dict_get (additionalProperties station) []) = Some (JStr ''false'')
     \<or> bag_value ''Locked'' (dict_get (additionalProperties station) []) = Some (JStr ''true'')"

text \<open>The readings a cycle added to the table.\<close>

definition written :: "db \<Rightarrow> db \<Rightarrow> reading list" where
  "written d d' = drop (length (bike_availability d)) (bike_availability d')"

subsection \<open>Example data\<close>

definition example_near :: station where
  "example_near =
     \<lparr>ident = ''BikePoints_428'', commonName = ''Exhibition Road, Knightsbridge'',
      lat = Some 51.5038, lon = Some (- 0.1749),
      additionalProperties =
        Some [\<lparr>p_key = Some (JStr ''NbDocks''), p_value = Some (JStr ''20'')\<rparr>]\<rparr>"

definition example_far :: station where
  "example_far =
     \<lparr>ident = ''BikePoints_99'', commonName = ''Hyde Park'',
      lat = Some 51.5188, lon = Some (- 0.1749),
      additionalProperties = None\<rparr>"

definition example_db :: db where
  "example_db = \<lparr>monitored_stations = [], bike_availability = []\<rparr>"

definition example_full :: station where
  "example_full =
     \<lparr>ident = ''BikePoints_440'', commonName = ''Queens Gate, Kensington Gardens'',
      lat = Some 51.5017, lon = Some (- 0.1802),
      additionalProperties =
        Some [\<lparr>p_key = Some (JStr ''NbBikes''), p_value = Some (JStr ''4'')\<rparr>,
              \<lparr>p_key = Some (JStr ''NbStandardBikes''), p_value = Some (JStr ''3'')\<rparr>,
              \<lparr>p_key = Some (JStr ''NbEBikes''), p_value = Some (JStr ''1'')\<rparr>,
              \<lparr>p_key = Some (JStr ''NbEmptyDocks''), p_value = Some (JStr ''4'')\<rparr>,
              \<lparr>p_key = Some (JStr ''NbDocks''), p_value = Some (JStr ''8'')\<rparr>,
              \<lparr>p_key = Some (JStr ''Installed''), p_value = Some (JStr ''true'')\<rparr>,
              \<lparr>p_key = Some (JStr ''Locked''), p_value = Some (JStr ''false'')\<rparr>]\<rparr>"

definition example_locked :: station where
  "example_locked =
     \<lparr>ident = ''BikePoints_432'', commonName = ''Prince Consort Road'',
      lat = Some 51.4998, lon = Some (- 0.1762),
      additionalProperties =
        Some [\<lparr>p_key = Some (JStr ''NbBikes''), p_value = Some (JStr ''2'')\<rparr>,
              \<lparr>p_key = Some (JStr ''Locked''), p_value = Some (JStr ''true'')\<rparr>]\<rparr>"

definition example_row :: "string \<Rightarrow> monitored" where
  "example_row sid =
     \<lparr>m_station_id = sid, m_station_name = ''a station'', m_latitude = 51.5,
      m_longitude = - 0.17, m_distance_m = 300\<rparr>"

definition example_monitoring :: db where
  "example_monitoring =
     \<lparr>monitored_stations = map example_row
        [''BikePoints_428'', ''BikePoints_432'', ''BikePoints_436'', ''BikePoints_440''],
      bike_availability = []\<rparr>"

definition example_cycle :: cycle_input where
  "example_cycle =
     \<lparr>discovery_response = TimedOut,
      collection_response =
        Response 200 (JSON (PArray [example_near, example_locked, example_far, example_full])),
      utc_now = ''2024-05-01T08:00:00+00:00''\<rparr>"

definition example_reading_428 :: reading where
  "example_reading_428 =
     \<lparr>r_timestamp = ''2024-05-01T08:00:00+00:00'', r_station_id = ''BikePoints_428'',
      r_station_name = ''Exhibition Road, Knightsbridge'',
      r_available_bikes = 0, r_standard_bikes = 0, r_ebikes = 0, r_empty_docks = 0,
      r_total_docks = 20, r_latitude = 51.5038, r_longitude = - 0.1749\<rparr>"

definition example_reading_440 :: reading where
  "example_reading_440 =
     \<lparr>r_timestamp = ''2024-05-01T08:00:00+00:00'', r_station_id = ''BikePoints_440'',
      r_station_name = ''Queens Gate, Kensington Gardens'',
      r_available_bikes = 4, r_standard_bikes = 3, r_ebikes = 1, r_empty_docks = 4,
      r_total_docks = 8, r_latitude = 51.5017, r_longitude = - 0.1802\<rparr>"

definition example_outage :: cycle_input where
  "example_outage =
     \<lparr>discovery_response = TimedOut,
      collection_response = Response 503 NotJSON,
      utc_now = ''2024-05-01T08:01:00+00:00''\<rparr>"


definition example_null_feed :: cycle_input where
  "example_null_feed =
     \<lparr>discovery_response = Response 200 (JSON PNull),
      collection_response = Response 200 (JSON PNull),
      utc_now = ''2024-05-01T08:02:00+00:00''\<rparr>"

definition example_null_inputs :: "nat \<Rightarrow> cycle_input" where
  "example_null_inputs i = example_null_feed"

definition example_inputs :: "nat \<Rightarrow> cycle_input" where
  "example_inputs i = example_cycle"

definition example_odd_flags :: station where
  "example_odd_flags =
     \<lparr>ident = ''BikePoints_436'', commonName = ''Imperial College, Knightsbridge'',
      lat = Some 51.4994, lon = Some (- 0.1742),
      additionalProperties =
        Some [\<lparr>p_key = Some (JStr ''NbBikes''), p_value = Some (JInt 7)\<rparr>,
              \<lparr>p_key = Some (JStr ''Installed''), p_value = Some (JStr ''False'')\<rparr>,
              \<lparr>p_key = Some (JStr ''Locked''), p_value = Some (JBool True)\<rparr>]\<rparr>"

definition example_flags_cycle :: cycle_input where
  "example_flags_cycle =
     \<lparr>discovery_response = TimedOut,
      collection_response =
        Response 200 (JSON (PArray [example_near, example_odd_flags, example_locked])),
      utc_now = ''2024-05-01T08:00:00+00:00''\<rparr>"

definition example_reading_436 :: reading where
  "example_reading_436 =
     \<lparr>r_timestamp = ''2024-05-01T08:00:00+00:00'', r_station_id = ''BikePoints_436'',
      r_station_name = ''Imperial College, Knightsbridge'',
      r_available_bikes = 7, r_standard_bikes = 0, r_ebikes = 0, r_empty_docks = 0,
      r_total_docks = 0, r_latitude = 51.4994, r_longitude = - 0.1742\<rparr>"

definition example_garbled :: station where
  "example_garbled =
     \<lparr>ident = ''BikePoints_440'', commonName = ''Queens Gate, Kensington Gardens'',
      lat = Some 51.5017, lon = Some (- 0.1802),
      additionalProperties =
        Some [\<lparr>p_key = Some (JStr ''NbBikes''), p_value = Some (JStr ''4'')\<rparr>,
              \<lparr>p_key = Some (JStr ''NbDocks''), p_value = Some (JStr ''n/a'')\<rparr>]\<rparr>"

definition example_garbled_cycle :: cycle_input where
  "example_garbled_cycle =
     \<lparr>discovery_response = TimedOut,
      collection_response = Response 200 (JSON (PArray [example_near, example_garbled])),
      utc_now = ''2024-05-01T08:00:00+00:00''\<rparr>"

text \<open>A burst whose third cycle meets the body \<^verbatim>\<open>null\<close>.\<close>

definition example_broken_inputs :: "nat \<Rightarrow> cycle_input" where
  "example_broken_inputs i = (if i = 2 then example_null_feed else example_cycle)"

section \<open>Properties\<close>

subsection \<open>Discovery\<close>

lemma nearby_loop_filter:
  "nearby_loop acc stations =
     acc @ map nearby_entry (filter (\<lambda>s. station_distance s \<le> SEARCH_RADIUS_M) stations)"
  by (induction stations arbitrary: acc) simp_all

lemma upsert_loop_snoc:
  "upsert_loop tab (ns @ [n]) = upsert (monitored_of n) (upsert_loop tab ns)"
  by (induction ns arbitrary: tab) simp_all

lemma upsert_loop_split:
  "upsert_loop tab ns =
     filter (\<lambda>x. m_station_id x \<notin> n_station_id ` set ns) tab @ upsert_loop [] ns"
proof (induction ns rule: rev_induct)
  case Nil
  show ?case by simp
next
  case (snoc n ns)
  have key: "m_station_id (monitored_of n) = n_station_id n"
    by (simp add: monitored_of_def)
  have "upsert_loop tab (ns @ [n]) = upsert (monitored_of n) (upsert_loop tab ns)"
    by (rule upsert_loop_snoc)
  also have "\<dots> = upsert (monitored_of n)
      (filter (\<lambda>x. m_station_id x \<notin> n_station_id ` set ns) tab @ upsert_loop [] ns)"
    using snoc.IH by simp
  also have "\<dots> = filter (\<lambda>x. m_station_id x \<notin> n_station_id ` set (ns @ [n])) tab
      @ upsert (monitored_of n) (upsert_loop [] ns)"
    by (simp add: upsert_def key conj_commute)
  finally show ?case by (simp add: upsert_loop_snoc)
qed

lemma upsert_ids:
  "m_station_id ` set (upsert row tab) = insert (m_station_id row) (m_station_id ` set tab)"
  by (auto simp: upsert_def)

lemma upsert_loop_ids:
  "m_station_id ` set (upsert_loop tab ns) = m_station_id ` set tab \<union> n_station_id ` set ns"
  by (induction ns arbitrary: tab) (auto simp: upsert_ids monitored_of_def)

lemma upsert_loop_idem:
  "upsert_loop (upsert_loop tab ns) ns = upsert_loop tab ns"
proof -
  let ?out = "\<lambda>x. m_station_id x \<notin> n_station_id ` set ns"
  have fresh: "filter ?out (upsert_loop [] ns) = []"
    using upsert_loop_ids [of "[]" ns] by (auto simp: filter_empty_conv)
  have "upsert_loop (upsert_loop tab ns) ns
      = filter ?out (upsert_loop tab ns) @ upsert_loop [] ns"
    by (rule upsert_loop_split)
  also have "filter ?out (upsert_loop tab ns) = filter ?out (filter ?out tab @ upsert_loop [] ns)"
    using upsert_loop_split [of tab ns] by simp
  also have "\<dots> = filter ?out tab"
    using fresh by simp
  finally show ?thesis
    using upsert_loop_split [of tab ns] by simp
qed

text \<open>
  Claim C5. Running discovery twice in succession against the same answer of the feed
  leaves the database, and so the registry, after the second run as it was after the
  first: whether the fetch fails, raises or delivers a catalogue.
\<close>

theorem discovery_idempotent:
  "snd (discover_stations response (snd (discover_stations response d)))
     = snd (discover_stations response d)"
proof (cases "fetch_all_stations response")
  case (Inl e)
  then show ?thesis
    by (cases e) (simp_all add: discover_stations_def)
next
  case (Inr all_stations)
  then show ?thesis
    by (simp add: discover_stations_def Let_def upsert_loop_idem)
qed

text \<open>
  Both arguments of \<^verbatim>\<open>math.sqrt\<close> in \<^verbatim>\<open>haversine\<close> are non-negative in exact arithmetic:
  its domain error does not occur there.
\<close>

lemma haversine_argument_range:
  fixes p1 p2 l :: real
  defines "a \<equiv> (sin ((p2 - p1) / 2))\<^sup>2 + cos p1 * cos p2 * (sin (l / 2))\<^sup>2"
  shows "0 \<le> a \<and> a \<le> 1"
proof -
  define t where "t = (sin (l / 2))\<^sup>2"
  define D where "D = cos (p2 - p1)"
  define S where "S = cos (p1 + p2)"
  have t: "0 \<le> t" "t \<le> 1"
  proof -
    show "0 \<le> t" by (simp add: t_def)
    have "(sin (l / 2))\<^sup>2 + (cos (l / 2))\<^sup>2 = 1"
      by (rule sin_cos_squared_add)
    moreover have "0 \<le> (cos (l / 2))\<^sup>2"
      by (rule zero_le_power2)
    ultimately show "t \<le> 1"
      unfolding t_def by linarith
  qed
  have D: "- 1 \<le> D" "D \<le> 1" and S: "- 1 \<le> S" "S \<le> 1"
    by (simp_all add: D_def S_def)
  have "2 * ((p2 - p1) / 2) = p2 - p1"
    by simp
  then have "cos (p2 - p1) = 1 - 2 * (sin ((p2 - p1) / 2))\<^sup>2"
    using cos_double_sin [of "(p2 - p1) / 2"] by (simp only:)
  then have half: "(sin ((p2 - p1) / 2))\<^sup>2 = (1 - D) / 2"
    unfolding D_def by argo
  have prod: "cos p1 * cos p2 = (D + S) / 2"
    using cos_times_cos [of p1 p2] by (simp add: D_def S_def cos_diff cos_add)
  have a: "2 * a = 1 - (1 - t) * D + t * S"
    unfolding a_def half prod t_def [symmetric] by (simp add: field_simps)
  have "(1 - t) * D \<le> (1 - t) * 1" and "(1 - t) * (- 1) \<le> (1 - t) * D"
    using t D by (intro mult_left_mono; simp)+
  moreover have "t * S \<le> t * 1" and "t * (- 1) \<le> t * S"
    using t S by (intro mult_left_mono; simp)+
  ultimately show ?thesis
    using a by auto
qed

lemma haversine_sqrt_arguments:
  "0 \<le> (sin (radians (lat2 - lat1) / 2))\<^sup>2
        + cos (radians lat1) * cos (radians lat2) * (sin (radians (lon2 - lon1) / 2))\<^sup>2
   \<and> 0 \<le> 1 - ((sin (radians (lat2 - lat1) / 2))\<^sup>2
        + cos (radians lat1) * cos (radians lat2) * (sin (radians (lon2 - lon1) / 2))\<^sup>2)"
proof -
  have "radians (lat2 - lat1) = radians lat2 - radians lat1"
    by (simp add: radians_def field_simps)
  then show ?thesis
    using haversine_argument_range [of "radians lat2" "radians lat1" "radians (lon2 - lon1)"]
    by simp
qed

lemma haversine_same_longitude:
  assumes "0 \<le> lat2 - lat1" and "lat2 - lat1 < 180"
  shows "haversine lat1 lon1 lat2 lon1 = 6371000 * radians (lat2 - lat1)"
proof -
  define x where "x = radians (lat2 - lat1) / 2"
  have "(lat2 - lat1) * pi < 180 * pi"
    using assms(2) by (intro mult_strict_right_mono) simp_all
  then have x1: "x < pi / 2"
    by (simp add: x_def radians_def)
  have x0: "0 \<le> x"
    using assms(1) by (simp add: x_def radians_def)
  have s: "0 \<le> sin x"
    using x0 x1 by (intro sin_ge_zero) simp_all
  have c: "0 < cos x"
    using x0 x1 by (intro cos_gt_zero_pi) simp_all
  have "1 - (sin x)\<^sup>2 = (cos x)\<^sup>2"
    using sin_cos_squared_add [of x] by linarith
  then have sq: "sqrt (1 - (sin x)\<^sup>2) = cos x"
    using c by simp
  have "atan2 (sin x) (cos x) = arctan (tan x)"
    using c by (simp add: atan2_def tan_def)
  also have "\<dots> = x"
    using x0 x1 by (intro arctan_tan) simp_all
  finally have at: "atan2 (sin x) (cos x) = x" .
  have "haversine lat1 lon1 lat2 lon1
      = 6371000 * 2 * atan2 (sqrt ((sin x)\<^sup>2)) (sqrt (1 - (sin x)\<^sup>2))"
    by (simp add: haversine_def Let_def x_def radians_def)
  also have "\<dots> = 6371000 * 2 * x"
    using s by (simp only: sq at real_sqrt_abs abs_of_nonneg)
  also have "\<dots> = 6371000 * radians (lat2 - lat1)"
    by (simp add: x_def)
  finally show ?thesis .
qed

lemma nearby_entry_distance:
  "nearby_entry s = nearby_entry s' \<Longrightarrow> station_distance s = station_distance s'"
proof -
  assume eq: "nearby_entry s = nearby_entry s'"
  have "n_latitude (nearby_entry s) = n_latitude (nearby_entry s')"
    and "n_longitude (nearby_entry s) = n_longitude (nearby_entry s')"
    using eq by simp_all
  then show ?thesis
    by (simp add: nearby_entry_def station_distance_def Let_def)
qed

text \<open>
  Claim C1. For every catalogue fetched, discovery keeps a station if and only if its
  distance from the reference point is at most the radius of 800 m: the list returned is
  the entries of exactly the stations within the radius, sorted by distance, none above
  the radius is in it and none within it is missing, and the registry gains the
  identifiers of exactly these stations.
\<close>

theorem discovery_keeps_exactly_within_radius:
  assumes "fetch_all_stations response = Inr stations"
  shows "\<exists>found d'. discover_stations response d = (Inr found, d')
     \<and> found = sort_key n_distance_m
         (map nearby_entry (filter (\<lambda>s. station_distance s \<le> SEARCH_RADIUS_M) stations))
     \<and> (\<forall>s \<in> set stations.
           nearby_entry s \<in> set found \<longleftrightarrow> station_distance s \<le> SEARCH_RADIUS_M)
     \<and> (\<forall>n \<in> set found. \<exists>s \<in> set stations.
           n = nearby_entry s \<and> station_distance s \<le> SEARCH_RADIUS_M)
     \<and> length found
         = length (filter (\<lambda>s. station_distance s \<le> SEARCH_RADIUS_M) stations)
     \<and> set (get_monitored_station_ids d')
         = set (get_monitored_station_ids d)
           \<union> ident ` {s \<in> set stations. station_distance s \<le> SEARCH_RADIUS_M}"
proof -
  let ?kept = "filter (\<lambda>s. station_distance s \<le> SEARCH_RADIUS_M) stations"
  let ?found = "sort_key n_distance_m (map nearby_entry ?kept)"
  let ?d' = "d\<lparr>monitored_stations := upsert_loop (monitored_stations d) ?found\<rparr>"
  have run: "discover_stations response d = (Inr ?found, ?d')"
    using assms by (simp add: discover_stations_def Let_def nearby_loop_filter)
  have members: "set ?found = nearby_entry ` set ?kept"
    by simp
  have iff: "\<forall>s \<in> set stations.
      nearby_entry s \<in> set ?found \<longleftrightarrow> station_distance s \<le> SEARCH_RADIUS_M"
  proof
    fix s assume s: "s \<in> set stations"
    show "nearby_entry s \<in> set ?found \<longleftrightarrow> station_distance s \<le> SEARCH_RADIUS_M"
    proof
      assume "nearby_entry s \<in> set ?found"
      then obtain s' where "s' \<in> set ?kept" and "nearby_entry s = nearby_entry s'"
        unfolding members by auto
      then show "station_distance s \<le> SEARCH_RADIUS_M"
        using nearby_entry_distance [of s s'] by simp
    next
      assume "station_distance s \<le> SEARCH_RADIUS_M"
      then have "s \<in> set ?kept" using s by simp
      then show "nearby_entry s \<in> set ?found"
        unfolding members by (rule imageI)
    qed
  qed
  have only: "\<forall>n \<in> set ?found. \<exists>s \<in> set stations.
      n = nearby_entry s \<and> station_distance s \<le> SEARCH_RADIUS_M"
    unfolding members by auto
  have len: "length ?found = length ?kept"
    by simp
  have "n_station_id ` set ?found = ident ` set ?kept"
    unfolding members by (auto simp: nearby_entry_def Let_def image_iff)
  then have ids: "set (get_monitored_station_ids ?d')
      = set (get_monitored_station_ids d) \<union> ident ` {s \<in> set stations. station_distance s \<le> SEARCH_RADIUS_M}"
    by (simp add: get_monitored_station_ids_def upsert_loop_ids)
  show ?thesis
    using run iff only len ids by blast
qed

lemma example_near_distance: "station_distance example_near \<le> SEARCH_RADIUS_M"
proof -
  have "station_distance example_near = 6371000 * radians (51.5038 - 51.4988)"
    unfolding station_distance_def example_near_def IMPERIAL_LAT_def IMPERIAL_LON_def
    by (simp add: dict_get_def Let_def haversine_same_longitude)
  then show ?thesis
    using pi_less_4 by (simp add: radians_def SEARCH_RADIUS_M_def)
qed

lemma example_far_distance: "\<not> station_distance example_far \<le> SEARCH_RADIUS_M"
proof -
  have "station_distance example_far = 6371000 * radians (51.5188 - 51.4988)"
    unfolding station_distance_def example_far_def IMPERIAL_LAT_def IMPERIAL_LON_def
    by (simp add: dict_get_def Let_def haversine_same_longitude)
  then show ?thesis
    using pi_ge_two by (simp add: radians_def SEARCH_RADIUS_M_def)
qed

theorem discovery_keeps_exactly_within_radius_witness:
  "fetch_all_stations (Response 200 (JSON (PArray [example_far, example_near])))
     = Inr [example_far, example_near]
   \<and> station_distance example_near \<le> SEARCH_RADIUS_M
   \<and> \<not> station_distance example_far \<le> SEARCH_RADIUS_M
   \<and> (\<exists>found d'.
         discover_stations (Response 200 (JSON (PArray [example_far, example_near]))) example_db
           = (Inr found, d')
         \<and> nearby_entry example_near \<in> set found
         \<and> nearby_entry example_far \<notin> set found
         \<and> length found = 1
         \<and> set (get_monitored_station_ids d') = {''BikePoints_428''})"
proof -
  let ?r = "Response 200 (JSON (PArray [example_far, example_near]))"
  have fetched: "fetch_all_stations ?r = Inr [example_far, example_near]"
    by (simp add: fetch_all_stations_def)
  have ident: "ident example_near = ''BikePoints_428''"
    by (simp add: example_near_def)
  have no_ids: "get_monitored_station_ids example_db = []"
    by (simp add: example_db_def get_monitored_station_ids_def)
  have kept: "{s \<in> set [example_far, example_near]. station_distance s \<le> SEARCH_RADIUS_M}
      = {example_near}"
    using example_near_distance example_far_distance by auto
  have len: "length (filter (\<lambda>s. station_distance s \<le> SEARCH_RADIUS_M)
      [example_far, example_near]) = 1"
    using example_near_distance example_far_distance by simp
  obtain found d' where
    run: "discover_stations ?r example_db = (Inr found, d')" and
    iff: "\<forall>s \<in> set [example_far, example_near].
      nearby_entry s \<in> set found \<longleftrightarrow> station_distance s \<le> SEARCH_RADIUS_M" and
    count: "length found = length (filter (\<lambda>s. station_distance s \<le> SEARCH_RADIUS_M)
      [example_far, example_near])" and
    ids: "set (get_monitored_station_ids d') = set (get_monitored_station_ids example_db)
      \<union> ident ` {s \<in> set [example_far, example_near]. station_distance s \<le> SEARCH_RADIUS_M}"
    using discovery_keeps_exactly_within_radius [OF fetched, of example_db] by blast
  have "nearby_entry example_near \<in> set found"
    using iff example_near_distance by simp
  moreover have "nearby_entry example_far \<notin> set found"
    using iff example_far_distance by simp
  moreover have "length found = 1"
    using count len by simp
  moreover have "set (get_monitored_station_ids d') = {''BikePoints_428''}"
    unfolding ids kept by (simp add: ident no_ids)
  ultimately show ?thesis
    using run fetched example_near_distance example_far_distance by blast
qed

subsection \<open>The rows of a collection cycle\<close>

lemma and_then_Inr: "and_then r f = Inr y \<longleftrightarrow> (\<exists>v. r = Inr v \<and> f v = Inr y)"
  by (cases r) (simp_all add: and_then_def)

lemma reading_of_fields:
  assumes "reading_of now_utc station props = Inr row"
  shows "r_timestamp row = now_utc \<and> r_station_id row = ident station"
  using assms unfolding reading_of_def and_then_Inr by auto

lemma station_map_of_snoc:
  "station_map_of (xs @ [x]) = (station_map_of xs)(ident x \<mapsto> x)"
  by (simp add: station_map_of_def)

lemma station_map_of_Some:
  "station_map_of xs k = Some s \<Longrightarrow> s \<in> set xs \<and> ident s = k"
  by (induction xs rule: rev_induct)
     (auto simp: station_map_of_snoc station_map_of_def split: if_splits)

lemma station_map_of_None: "station_map_of xs k = None \<longleftrightarrow> k \<notin> ident ` set xs"
  by (induction xs rule: rev_induct)
     (auto simp: station_map_of_snoc station_map_of_def split: if_splits)

lemma row_from_Cons: "row_from n m ids row \<Longrightarrow> row_from n m (sid # ids) row"
  by (auto simp: row_from_def)

lemma collect_loop_rows:
  "\<exists>new. loop_rows (collect_loop now_utc station_map acc ids) = acc @ new
     \<and> (\<forall>row \<in> set new. row_from now_utc station_map ids row)"
proof (induction ids arbitrary: acc)
  case Nil
  show ?case by (simp add: loop_rows_def)
next
  case (Cons sid ids)
  show ?case
  proof (cases "station_map sid")
    case None
    then show ?thesis
      using Cons.IH [of acc] by (auto intro: row_from_Cons)
  next
    case (Some station)
    show ?thesis
    proof (cases "not_serviceable (station_props station)")
      case True
      then show ?thesis
        using Some Cons.IH [of acc] by (auto intro: row_from_Cons)
    next
      case False
      show ?thesis
      proof (cases "reading_of now_utc station (station_props station)")
        case (Inl e)
        then show ?thesis
          using Some False by (simp add: loop_rows_def)
      next
        case (Inr row)
        have here: "row_from now_utc station_map (sid # ids) row"
          using Some False Inr by (auto simp: row_from_def)
        obtain new where
          "loop_rows (collect_loop now_utc station_map (acc @ [row]) ids) = (acc @ [row]) @ new"
          "\<forall>r \<in> set new. row_from now_utc station_map ids r"
          using Cons.IH [of "acc @ [row]"] by blast
        then show ?thesis
          using Some False Inr here by (auto intro: row_from_Cons)
      qed
    qed
  qed
qed

lemma collect_loop_complete:
  assumes "collect_loop now_utc station_map acc ids = Inr rows"
    and "sid \<in> set ids" and "station_map sid = Some station"
    and "\<not> not_serviceable (station_props station)"
  shows "\<exists>row \<in> set rows. reading_of now_utc station (station_props station) = Inr row"
  using assms
proof (induction ids arbitrary: acc)
  case Nil
  then show ?case by simp
next
  case (Cons x ids)
  have keeps: "\<And>a rs. collect_loop now_utc station_map a ids = Inr rs \<Longrightarrow> set a \<subseteq> set rs"
  proof -
    fix a rs assume "collect_loop now_utc station_map a ids = Inr rs"
    then show "set a \<subseteq> set rs"
      using collect_loop_rows [of now_utc station_map a ids] by (auto simp: loop_rows_def)
  qed
  show ?case
  proof (cases "x = sid")
    case True
    then obtain row where
      row: "reading_of now_utc station (station_props station) = Inr row" and
      rest: "collect_loop now_utc station_map (acc @ [row]) ids = Inr rows"
      using Cons.prems by (auto split: sum.splits)
    then show ?thesis using keeps [OF rest] by auto
  next
    case False
    then have "sid \<in> set ids" using Cons.prems by simp
    moreover obtain acc' where "collect_loop now_utc station_map acc' ids = Inr rows"
      using Cons.prems(1) by (auto split: option.splits if_splits sum.splits simp: Let_def)
    ultimately show ?thesis
      using Cons.IH Cons.prems by blast
  qed
qed

lemma discover_stations_readings:
  "discover_stations response d = (res, d') \<Longrightarrow> bike_availability d' = bike_availability d"
  by (auto simp: discover_stations_def Let_def split: sum.splits exn.splits)

lemma discover_stations_caught:
  "fetch_all_stations response = Inl (RequestException e)
     \<Longrightarrow> discover_stations response d = (Inr [], d)"
  by (simp add: discover_stations_def)

lemma discover_stations_raises:
  "discover_stations response d = (Inl e, d') \<Longrightarrow> d' = d"
  by (auto simp: discover_stations_def Let_def split: sum.splits exn.splits)


lemma collect_from_rows:
  assumes "collect_from inp d ids = (res, d', evs)"
  shows "monitored_stations d' = monitored_stations d
     \<and> (\<exists>new. bike_availability d' = bike_availability d @ new
          \<and> (\<forall>row \<in> set new. Insert row \<in> set evs))
     \<and> (\<forall>row. Insert row \<in> set evs \<longrightarrow> cycle_rows inp ids row)
     \<and> Discovery \<notin> set evs"
proof (cases "fetch_all_stations (collection_response inp)")
  case (Inl e)
  then show ?thesis
    using assms by (cases e) (auto simp: collect_from_def)
next
  case (Inr stations)
  let ?loop = "collect_loop (utc_now inp) (station_map_of stations) [] ids"
  obtain new where new: "loop_rows ?loop = new"
    and origin: "\<forall>row \<in> set new. row_from (utc_now inp) (station_map_of stations) ids row"
    using collect_loop_rows [of "utc_now inp" "station_map_of stations" "[]" ids] by auto
  have rows: "\<forall>row \<in> set new. cycle_rows inp ids row"
    using origin Inr by (auto simp: cycle_rows_def)
  show ?thesis
  proof (cases ?loop)
    case (Inl failure)
    then show ?thesis
      using assms Inr new rows
      by (cases failure) (auto simp: collect_from_def Let_def loop_rows_def)
  next
    case (Inr inserted)
    then show ?thesis
      using assms \<open>fetch_all_stations (collection_response inp) = Inr stations\<close> new rows
      by (auto simp: collect_from_def Let_def loop_rows_def)
  qed
qed

lemma collect_once_nonempty:
  "get_monitored_station_ids d \<noteq> []
     \<Longrightarrow> collect_once inp d = collect_from inp d (get_monitored_station_ids d)"
  by (simp add: collect_once_def Let_def)

lemma collect_once_rows:
  assumes "collect_once inp d = (res, d', evs)"
  shows "(\<exists>new. bike_availability d' = bike_availability d @ new
          \<and> (\<forall>row \<in> set new. Insert row \<in> set evs))
     \<and> (\<forall>row. Insert row \<in> set evs \<longrightarrow> cycle_rows inp (get_monitored_station_ids d') row)
     \<and> (get_monitored_station_ids d \<noteq> [] \<longrightarrow> monitored_stations d' = monitored_stations d)"
proof (cases "get_monitored_station_ids d = []")
  case False
  then have "collect_from inp d (get_monitored_station_ids d) = (res, d', evs)"
    using assms by (simp add: collect_once_nonempty)
  from collect_from_rows [OF this] show ?thesis
    by (simp add: get_monitored_station_ids_def)
next
  case True
  obtain r1 d1 where disc: "discover_stations (discovery_response inp) d = (r1, d1)"
    by (cases "discover_stations (discovery_response inp) d")
  have same: "bike_availability d1 = bike_availability d"
    using disc by (rule discover_stations_readings)
  show ?thesis
  proof (cases r1)
    case (Inl e)
    then have "d' = d1" "evs = [Discovery]"
      using assms True disc by (simp_all add: collect_once_def Let_def)
    then show ?thesis using True same by simp
  next
    case (Inr found)
    show ?thesis
    proof (cases "get_monitored_station_ids d1 = []")
      case True
      then have "d' = d1" "evs = [Discovery]"
        using assms \<open>get_monitored_station_ids d = []\<close> disc Inr
        by (simp_all add: collect_once_def Let_def)
      then show ?thesis using \<open>get_monitored_station_ids d = []\<close> same by simp
    next
      case False
      obtain evs1 where
        rest: "collect_from inp d1 (get_monitored_station_ids d1) = (res, d', evs1)"
        and evs: "evs = Discovery # evs1"
        using assms \<open>get_monitored_station_ids d = []\<close> disc Inr False
        by (auto simp: collect_once_def Let_def split: prod.splits)
      from collect_from_rows [OF rest] show ?thesis
        using same evs \<open>get_monitored_station_ids d = []\<close>
        by (simp add: get_monitored_station_ids_def)
    qed
  qed
qed

lemmas int_conv = py_int_def int_of_string_def strip_def is_space_def unsigned_value_def
  digit_value_def MAX_STR_DIGITS_def sqlite_integer_def

lemma example_props_near:
  "station_props example_near = [''NbDocks'' \<mapsto> JStr ''20'']"
  by (simp add: station_props_def example_near_def parse_properties_def dict_get_def recognised_def)

lemma example_reading_near:
  "reading_of ''2024-05-01T08:00:00+00:00'' example_near (station_props example_near)
     = Inr example_reading_428"
  unfolding example_props_near
  by (simp add: reading_of_def and_then_def dict_get_def int_conv example_near_def example_reading_428_def)

lemma example_reading_full:
  "reading_of ''2024-05-01T08:00:00+00:00'' example_full (station_props example_full)
     = Inr example_reading_440"
  by (simp add: station_props_def parse_properties_def recognised_def
        reading_of_def and_then_def dict_get_def int_conv example_full_def example_reading_440_def)

lemma example_idents:
  "ident example_near = ''BikePoints_428''"
  "ident example_locked = ''BikePoints_432''"
  "ident example_far = ''BikePoints_99''"
  "ident example_full = ''BikePoints_440''"
  by (simp_all add: example_near_def example_locked_def example_far_def example_full_def)

lemma example_station_map:
  "station_map_of [example_near, example_locked, example_far, example_full] ''BikePoints_428''
     = Some example_near"
  "station_map_of [example_near, example_locked, example_far, example_full] ''BikePoints_432''
     = Some example_locked"
  "station_map_of [example_near, example_locked, example_far, example_full] ''BikePoints_436''
     = None"
  "station_map_of [example_near, example_locked, example_far, example_full] ''BikePoints_440''
     = Some example_full"
  by (simp_all add: station_map_of_def example_idents)

lemma example_serviceable:
  "\<not> not_serviceable (station_props example_near)"
  "not_serviceable (station_props example_locked)"
  "\<not> not_serviceable (station_props example_full)"
  by (simp_all add: not_serviceable_def station_props_def parse_properties_def recognised_def
        dict_get_def example_near_def example_locked_def example_full_def)

lemma example_cycle_run:
  "collect_once example_cycle example_monitoring
     = (Inr ''ok'',
        example_monitoring\<lparr>bike_availability := [example_reading_428, example_reading_440]\<rparr>,
        [Fetch, Insert example_reading_428, Insert example_reading_440, Commit])"
proof -
  have ids: "get_monitored_station_ids example_monitoring
      = [''BikePoints_428'', ''BikePoints_432'', ''BikePoints_436'', ''BikePoints_440'']"
    by (simp add: get_monitored_station_ids_def example_monitoring_def example_row_def)
  have fetched: "fetch_all_stations (collection_response example_cycle)
      = Inr [example_near, example_locked, example_far, example_full]"
    by (simp add: example_cycle_def fetch_all_stations_def)
  have now: "utc_now example_cycle = ''2024-05-01T08:00:00+00:00''"
    by (simp add: example_cycle_def)
  have loop: "collect_loop ''2024-05-01T08:00:00+00:00''
      (station_map_of [example_near, example_locked, example_far, example_full]) []
      [''BikePoints_428'', ''BikePoints_432'', ''BikePoints_436'', ''BikePoints_440'']
      = Inr [example_reading_428, example_reading_440]"
    by (simp add: example_station_map example_serviceable example_reading_near
          example_reading_full)
  have empty: "bike_availability example_monitoring = []"
    by (simp add: example_monitoring_def)
  show ?thesis
    by (simp add: collect_once_def ids collect_from_def Let_def fetched now loop empty
          del: collect_loop.simps)
qed

lemma cycle_rows_origin:
  assumes "cycle_rows inp ids row"
  shows "r_timestamp row = utc_now inp
     \<and> r_station_id row \<in> set ids
     \<and> (\<exists>stations station.
           fetch_all_stations (collection_response inp) = Inr stations
         \<and> station \<in> set stations \<and> ident station = r_station_id row
         \<and> station_map_of stations (r_station_id row) = Some station
         \<and> \<not> not_serviceable (station_props station))"
proof -
  obtain stations sid station where
    fetched: "fetch_all_stations (collection_response inp) = Inr stations" and
    sid: "sid \<in> set ids" and
    found: "station_map_of stations sid = Some station" and
    ok: "\<not> not_serviceable (station_props station)" and
    row: "reading_of (utc_now inp) station (station_props station) = Inr row"
    using assms by (auto simp: cycle_rows_def row_from_def)
  have fields: "r_timestamp row = utc_now inp" "r_station_id row = ident station"
    using reading_of_fields [OF row] by simp_all
  have member: "station \<in> set stations" "ident station = sid"
    using station_map_of_Some [OF found] by simp_all
  show ?thesis
    using fetched sid found ok fields member by auto
qed

text \<open>
  Claim C2. In every collection cycle a reading is inserted, and a reading is committed,
  only for an identifier of the registry as the cycle loaded it, that the catalogue fetched
  in the cycle contains, and whose station there is not flagged (\<^verbatim>\<open>Installed\<close> is
  \<^verbatim>\<open>"false"\<close> or \<^verbatim>\<open>Locked\<close> is \<^verbatim>\<open>"true"\<close>); an identifier missing from the catalogue,
  or flagged in it, gets no reading in the cycle. A cycle that starts with identifiers in
  the registry leaves the registry as it was.
\<close>

theorem readings_only_for_monitored_serviceable_stations:
  assumes "collect_once inp d = (res, d', evs)"
  shows "\<exists>new. bike_availability d' = bike_availability d @ new
     \<and> (\<forall>row \<in> set new \<union> {r. Insert r \<in> set evs}.
           r_station_id row \<in> set (get_monitored_station_ids d')
         \<and> (\<exists>stations station.
               fetch_all_stations (collection_response inp) = Inr stations
             \<and> station \<in> set stations \<and> ident station = r_station_id row
             \<and> station_map_of stations (r_station_id row) = Some station
             \<and> \<not> not_serviceable (station_props station)))
     \<and> (\<forall>stations sid.
           fetch_all_stations (collection_response inp) = Inr stations
           \<and> (sid \<notin> ident ` set stations
              \<or> (\<exists>station. station_map_of stations sid = Some station
                    \<and> not_serviceable (station_props station)))
           \<longrightarrow> (\<forall>row \<in> set new \<union> {r. Insert r \<in> set evs}. r_station_id row \<noteq> sid))
     \<and> (get_monitored_station_ids d \<noteq> [] \<longrightarrow> monitored_stations d' = monitored_stations d)"
proof -
  obtain new where
    new: "bike_availability d' = bike_availability d @ new" and
    committed: "\<forall>row \<in> set new. Insert row \<in> set evs" and
    inserted: "\<forall>row. Insert row \<in> set evs
      \<longrightarrow> cycle_rows inp (get_monitored_station_ids d') row" and
    registry: "get_monitored_station_ids d \<noteq> [] \<longrightarrow> monitored_stations d' = monitored_stations d"
    using collect_once_rows [OF assms] by blast
  let ?rows = "set new \<union> {r. Insert r \<in> set evs}"
  have origin: "\<forall>row \<in> ?rows.
      r_station_id row \<in> set (get_monitored_station_ids d')
      \<and> (\<exists>stations station.
            fetch_all_stations (collection_response inp) = Inr stations
          \<and> station \<in> set stations \<and> ident station = r_station_id row
          \<and> station_map_of stations (r_station_id row) = Some station
          \<and> \<not> not_serviceable (station_props station))"
  proof
    fix row assume "row \<in> ?rows"
    then have "cycle_rows inp (get_monitored_station_ids d') row"
      using committed inserted by auto
    from cycle_rows_origin [OF this]
    show "r_station_id row \<in> set (get_monitored_station_ids d')
      \<and> (\<exists>stations station.
            fetch_all_stations (collection_response inp) = Inr stations
          \<and> station \<in> set stations \<and> ident station = r_station_id row
          \<and> station_map_of stations (r_station_id row) = Some station
          \<and> \<not> not_serviceable (station_props station))"
      by blast
  qed
  have gaps: "\<forall>stations sid.
      fetch_all_stations (collection_response inp) = Inr stations
      \<and> (sid \<notin> ident ` set stations
         \<or> (\<exists>station. station_map_of stations sid = Some station
               \<and> not_serviceable (station_props station)))
      \<longrightarrow> (\<forall>row \<in> ?rows. r_station_id row \<noteq> sid)"
  proof (intro allI impI ballI)
    fix stations sid row
    assume h: "fetch_all_stations (collection_response inp) = Inr stations
      \<and> (sid \<notin> ident ` set stations
         \<or> (\<exists>station. station_map_of stations sid = Some station
               \<and> not_serviceable (station_props station)))"
      and row: "row \<in> ?rows"
    obtain stations' station where
      "fetch_all_stations (collection_response inp) = Inr stations'" and
      st: "station_map_of stations' (r_station_id row) = Some station"
          "\<not> not_serviceable (station_props station)"
      using origin row by blast
    then have same: "stations' = stations" using h by simp
    show "r_station_id row \<noteq> sid"
    proof
      assume "r_station_id row = sid"
      then have "station_map_of stations sid = Some station"
        using st same by simp
      then show False
        using h st(2) by (auto simp: station_map_of_None [symmetric])
    qed
  qed
  show ?thesis
    using new origin gaps registry by blast
qed

text \<open>
  Claim C4. All the readings written in one collection cycle carry the same timestamp,
  the one reading of the clock of the cycle: those committed, and those inserted before an
  exception ended the cycle.
\<close>

theorem cycle_rows_share_one_timestamp:
  assumes "collect_once inp d = (res, d', evs)"
  shows "\<exists>new. bike_availability d' = bike_availability d @ new
     \<and> (\<forall>row \<in> set new. r_timestamp row = utc_now inp)
     \<and> (\<forall>row \<in> set new. \<forall>row' \<in> set new. r_timestamp row = r_timestamp row')
     \<and> (\<forall>row. Insert row \<in> set evs \<longrightarrow> r_timestamp row = utc_now inp)"
proof -
  obtain new where
    new: "bike_availability d' = bike_availability d @ new" and
    committed: "\<forall>row \<in> set new. Insert row \<in> set evs" and
    inserted: "\<forall>row. Insert row \<in> set evs
      \<longrightarrow> cycle_rows inp (get_monitored_station_ids d') row"
    using collect_once_rows [OF assms] by blast
  have stamp: "\<forall>row. Insert row \<in> set evs \<longrightarrow> r_timestamp row = utc_now inp"
    using inserted cycle_rows_origin by blast
  then have "\<forall>row \<in> set new. r_timestamp row = utc_now inp"
    using committed by blast
  then show ?thesis
    using new stamp by auto
qed

theorem readings_only_for_monitored_serviceable_stations_witness:
  "collect_once example_cycle example_monitoring
     = (Inr ''ok'',
        example_monitoring\<lparr>bike_availability := [example_reading_428, example_reading_440]\<rparr>,
        [Fetch, Insert example_reading_428, Insert example_reading_440, Commit])
   \<and> r_station_id example_reading_428 \<in> set (get_monitored_station_ids example_monitoring)
   \<and> r_station_id example_reading_440 \<in> set (get_monitored_station_ids example_monitoring)
   \<and> ''BikePoints_432'' \<notin> r_station_id ` set [example_reading_428, example_reading_440]
   \<and> ''BikePoints_436'' \<notin> r_station_id ` set [example_reading_428, example_reading_440]"
proof -
  let ?d' = "example_monitoring\<lparr>bike_availability := [example_reading_428, example_reading_440]\<rparr>"
  let ?evs = "[Fetch, Insert example_reading_428, Insert example_reading_440, Commit]"
  let ?stations = "[example_near, example_locked, example_far, example_full]"
  obtain new where
    new: "bike_availability ?d' = bike_availability example_monitoring @ new" and
    origin: "\<forall>row \<in> set new \<union> {r. Insert r \<in> set ?evs}.
      r_station_id row \<in> set (get_monitored_station_ids ?d')" and
    gaps: "\<forall>stations sid.
      fetch_all_stations (collection_response example_cycle) = Inr stations
      \<and> (sid \<notin> ident ` set stations
         \<or> (\<exists>station. station_map_of stations sid = Some station
               \<and> not_serviceable (station_props station)))
      \<longrightarrow> (\<forall>row \<in> set new \<union> {r. Insert r \<in> set ?evs}. r_station_id row \<noteq> sid)"
    using readings_only_for_monitored_serviceable_stations [OF example_cycle_run] by blast
  have rows: "new = [example_reading_428, example_reading_440]"
    using new by (simp add: example_monitoring_def)
  have ids: "get_monitored_station_ids ?d' = get_monitored_station_ids example_monitoring"
    by (simp add: get_monitored_station_ids_def)
  have fetched: "fetch_all_stations (collection_response example_cycle) = Inr ?stations"
    by (simp add: example_cycle_def fetch_all_stations_def)
  have locked: "\<forall>row \<in> set new \<union> {r. Insert r \<in> set ?evs}. r_station_id row \<noteq> ''BikePoints_432''"
    using gaps fetched example_station_map(2) example_serviceable(2) by blast
  have "''BikePoints_436'' \<notin> ident ` set ?stations"
    by (simp add: example_idents)
  then have absent: "\<forall>row \<in> set new \<union> {r. Insert r \<in> set ?evs}. r_station_id row \<noteq> ''BikePoints_436''"
    using gaps fetched by blast
  have "r_station_id example_reading_428 \<in> set (get_monitored_station_ids example_monitoring)"
    and "r_station_id example_reading_440 \<in> set (get_monitored_station_ids example_monitoring)"
    using origin unfolding rows ids by simp_all
  moreover have "''BikePoints_432'' \<notin> r_station_id ` set [example_reading_428, example_reading_440]"
    using locked unfolding rows by auto
  moreover have "''BikePoints_436'' \<notin> r_station_id ` set [example_reading_428, example_reading_440]"
    using absent unfolding rows by auto
  ultimately show ?thesis
    using example_cycle_run by simp
qed

theorem cycle_rows_share_one_timestamp_witness:
  "collect_once example_cycle example_monitoring
     = (Inr ''ok'',
        example_monitoring\<lparr>bike_availability := [example_reading_428, example_reading_440]\<rparr>,
        [Fetch, Insert example_reading_428, Insert example_reading_440, Commit])
   \<and> r_timestamp example_reading_428 = utc_now example_cycle
   \<and> r_timestamp example_reading_440 = utc_now example_cycle
   \<and> r_timestamp example_reading_428 = r_timestamp example_reading_440"
proof -
  let ?d' = "example_monitoring\<lparr>bike_availability := [example_reading_428, example_reading_440]\<rparr>"
  obtain new where
    new: "bike_availability ?d' = bike_availability example_monitoring @ new" and
    stamp: "\<forall>row \<in> set new. r_timestamp row = utc_now example_cycle"
    using cycle_rows_share_one_timestamp [OF example_cycle_run] by blast
  have rows: "new = [example_reading_428, example_reading_440]"
    using new by (simp add: example_monitoring_def)
  show ?thesis
    using stamp example_cycle_run unfolding rows by simp
qed

subsection \<open>Failed requests and the empty registry\<close>

lemma fetch_request_exception_iff:
  "(\<exists>e. fetch_all_stations r = Inl (RequestException e)) \<longleftrightarrow>
     r = TimedOut \<or> r = ConnectionFailed
     \<or> (\<exists>status b. r = Response status b \<and> (400 \<le> status \<and> status < 600 \<or> b = NotJSON))"
  by (auto simp: fetch_all_stations_def split: http_outcome.splits body.splits payload.splits)

lemma collect_from_caught:
  "fetch_all_stations (collection_response inp) = Inl (RequestException e)
     \<Longrightarrow> collect_from inp d ids = (Inr ''error'', d, [Fetch])"
  by (simp add: collect_from_def)

lemma burst_loop_returned:
  "collect_once (inputs i) d = (Inr outcome, d', evs)
     \<Longrightarrow> burst_loop inputs cycles d steps (i # rest)
         = burst_loop inputs cycles d'
             (steps @ [Cycle (Inr outcome)] @ (if int i < cycles - 1 then [Sleep 60] else []))
             rest"
  by simp

lemma burst_loop_raised:
  "collect_once (inputs i) d = (Inl e, d', evs)
     \<Longrightarrow> burst_loop inputs cycles d steps (i # rest) = (Inl e, d', steps @ [Cycle (Inl e)])"
  by simp

lemma collect_from_raised:
  assumes "fetch_all_stations (collection_response inp) = Inl e"
    and "\<forall>q. e \<noteq> RequestException q"
  shows "collect_from inp d ids = (Inl e, d, [Fetch])"
  using assms by (cases e) (simp_all add: collect_from_def)

lemma example_monitoring_ids:
  "get_monitored_station_ids example_monitoring
     = [''BikePoints_428'', ''BikePoints_432'', ''BikePoints_436'', ''BikePoints_440'']"
  by (simp add: get_monitored_station_ids_def example_monitoring_def example_row_def)

lemma example_null_feed_fetch:
  "fetch_all_stations (collection_response example_null_feed) = Inl TypeError"
  "fetch_all_stations (discovery_response example_null_feed) = Inl TypeError"
  by (simp_all add: example_null_feed_def fetch_all_stations_def)

lemma example_null_cycle_run:
  "get_monitored_station_ids d \<noteq> []
     \<Longrightarrow> collect_once example_null_feed d = (Inl TypeError, d, [Fetch])"
  using collect_from_raised [OF example_null_feed_fetch(1)]
  by (simp add: collect_once_nonempty)

text \<open>
  Claim C3, as amended. When the fetch of a collection cycle fails and the registry is
  not empty, the database is as before, so no reading is written and the registry is
  unchanged, and nothing but the request was done. When the failure is a
  \<^verbatim>\<open>RequestException\<close> of the HTTP library, that is a timeout, a failed connection, a
  status from 400 to 599 or a body that does not decode, the cycle returns \<^verbatim>\<open>"error"\<close>
  and the burst loop goes on to its sleep and its next cycle. (Any other exception of the
  fetch leaves the cycle.)
\<close>

theorem failed_fetch_writes_nothing:
  assumes "get_monitored_station_ids d \<noteq> []"
    and "fetch_all_stations (collection_response inp) = Inl e"
  shows "(\<exists>res. collect_once inp d = (res, d, [Fetch])
            \<and> ((\<exists>q. e = RequestException q) \<longrightarrow> res = Inr ''error'')
            \<and> ((\<forall>q. e \<noteq> RequestException q) \<longrightarrow> res = Inl e))
     \<and> ((\<exists>q. e = RequestException q) \<longleftrightarrow>
          collection_response inp = TimedOut \<or> collection_response inp = ConnectionFailed
          \<or> (\<exists>status b. collection_response inp = Response status b
                \<and> (400 \<le> status \<and> status < 600 \<or> b = NotJSON)))
     \<and> ((\<exists>q. e = RequestException q) \<and> inputs i = inp \<longrightarrow>
          burst_loop inputs cycles d steps (i # rest)
            = burst_loop inputs cycles d
                (steps @ [Cycle (Inr ''error'')] @ (if int i < cycles - 1 then [Sleep 60] else []))
                rest)"
proof (intro conjI)
  show "\<exists>res. collect_once inp d = (res, d, [Fetch])
      \<and> ((\<exists>q. e = RequestException q) \<longrightarrow> res = Inr ''error'')
      \<and> ((\<forall>q. e \<noteq> RequestException q) \<longrightarrow> res = Inl e)"
  proof (cases "\<exists>q. e = RequestException q")
    case True
    then have "collect_once inp d = (Inr ''error'', d, [Fetch])"
      using assms by (auto simp: collect_once_nonempty collect_from_caught)
    then show ?thesis using True by auto
  next
    case False
    then have "collect_once inp d = (Inl e, d, [Fetch])"
      using assms by (simp add: collect_once_nonempty collect_from_raised)
    then show ?thesis using False by auto
  qed
next
  have "(\<exists>q. e = RequestException q)
      \<longleftrightarrow> (\<exists>q. fetch_all_stations (collection_response inp) = Inl (RequestException q))"
    using assms(2) by auto
  then show "(\<exists>q. e = RequestException q) \<longleftrightarrow>
      collection_response inp = TimedOut \<or> collection_response inp = ConnectionFailed
      \<or> (\<exists>status b. collection_response inp = Response status b
            \<and> (400 \<le> status \<and> status < 600 \<or> b = NotJSON))"
    by (simp only: fetch_request_exception_iff)
next
  show "(\<exists>q. e = RequestException q) \<and> inputs i = inp \<longrightarrow>
      burst_loop inputs cycles d steps (i # rest)
        = burst_loop inputs cycles d
            (steps @ [Cycle (Inr ''error'')] @ (if int i < cycles - 1 then [Sleep 60] else []))
            rest"
  proof
    assume h: "(\<exists>q. e = RequestException q) \<and> inputs i = inp"
    then have "collect_once (inputs i) d = (Inr ''error'', d, [Fetch])"
      using assms by (auto simp: collect_once_nonempty collect_from_caught)
    then show "burst_loop inputs cycles d steps (i # rest)
        = burst_loop inputs cycles d
            (steps @ [Cycle (Inr ''error'')] @ (if int i < cycles - 1 then [Sleep 60] else []))
            rest"
      by (rule burst_loop_returned)
  qed
qed

theorem failed_fetch_writes_nothing_witness:
  "get_monitored_station_ids example_monitoring \<noteq> []
   \<and> fetch_all_stations (collection_response example_outage)
       = Inl (RequestException (HTTPError 503))
   \<and> collect_once example_outage example_monitoring
       = (Inr ''error'', example_monitoring, [Fetch])"
proof -
  have ids: "get_monitored_station_ids example_monitoring \<noteq> []"
    by (simp add: example_monitoring_ids)
  have failed: "fetch_all_stations (collection_response example_outage)
      = Inl (RequestException (HTTPError 503))"
    by (simp add: example_outage_def fetch_all_stations_def)
  have "\<exists>res. collect_once example_outage example_monitoring = (res, example_monitoring, [Fetch])
      \<and> ((\<exists>q. RequestException (HTTPError 503) = RequestException q) \<longrightarrow> res = Inr ''error'')
      \<and> ((\<forall>q. RequestException (HTTPError 503) \<noteq> RequestException q)
            \<longrightarrow> res = Inl (RequestException (HTTPError 503)))"
    using failed_fetch_writes_nothing [OF ids failed] by (rule conjunct1)
  then have "collect_once example_outage example_monitoring
      = (Inr ''error'', example_monitoring, [Fetch])"
    by auto
  then show ?thesis
    using ids failed by simp
qed

theorem failed_fetch_counterexample:
  "get_monitored_station_ids example_monitoring \<noteq> []
   \<and> fetch_all_stations (collection_response example_null_feed) = Inl TypeError
   \<and> collect_once example_null_feed example_monitoring
       = (Inl TypeError, example_monitoring, [Fetch])"
proof -
  have ids: "get_monitored_station_ids example_monitoring \<noteq> []"
    by (simp add: example_monitoring_ids)
  show ?thesis
    using ids example_null_feed_fetch(1) example_null_cycle_run [OF ids] by simp
qed








lemma range_five: "[0..<5] = [0, 1, 2, 3, 4]"
  by (simp add: upt_rec)

text \<open>
  Claim C7, as amended. The failures that the HTTP library raises as a
  \<^verbatim>\<open>RequestException\<close> are a timeout, a failed connection, a status from 400 to 599 and a
  body that does not decode. Each of them is caught by the caller: discovery returns the
  empty list and leaves the database as it was; a collection cycle returns \<^verbatim>\<open>"error"\<close>
  and writes nothing, whether the failing request is that of the collection or that of
  the discovery it starts with. No exception leaves the cycle.
\<close>

theorem request_exceptions_are_caught:
  "((\<exists>e. fetch_all_stations r = Inl (RequestException e)) \<longleftrightarrow>
      r = TimedOut \<or> r = ConnectionFailed
      \<or> (\<exists>status b. r = Response status b \<and> (400 \<le> status \<and> status < 600 \<or> b = NotJSON)))
   \<and> ((\<exists>e. fetch_all_stations r = Inl (RequestException e)) \<longrightarrow>
        discover_stations r d = (Inr [], d)
      \<and> (get_monitored_station_ids d \<noteq> [] \<and> collection_response inp = r
          \<longrightarrow> collect_once inp d = (Inr ''error'', d, [Fetch]))
      \<and> (get_monitored_station_ids d = [] \<and> discovery_response inp = r
          \<longrightarrow> collect_once inp d = (Inr ''error'', d, [Discovery]))
      \<and> (\<forall>found d1.
            get_monitored_station_ids d = [] \<and> collection_response inp = r
            \<and> discover_stations (discovery_response inp) d = (Inr found, d1)
            \<and> get_monitored_station_ids d1 \<noteq> []
            \<longrightarrow> collect_once inp d = (Inr ''error'', d1, [Discovery, Fetch])))"
proof (intro conjI impI)
  show "(\<exists>e. fetch_all_stations r = Inl (RequestException e)) \<longleftrightarrow>
      r = TimedOut \<or> r = ConnectionFailed
      \<or> (\<exists>status b. r = Response status b \<and> (400 \<le> status \<and> status < 600 \<or> b = NotJSON))"
    by (rule fetch_request_exception_iff)
next
  assume "\<exists>e. fetch_all_stations r = Inl (RequestException e)"
  then obtain e where failed: "fetch_all_stations r = Inl (RequestException e)" ..
  show "discover_stations r d = (Inr [], d)"
    using failed by (rule discover_stations_caught)
  show "collect_once inp d = (Inr ''error'', d, [Fetch])"
    if "get_monitored_station_ids d \<noteq> [] \<and> collection_response inp = r"
    using that failed by (simp add: collect_once_nonempty collect_from_caught)
  show "collect_once inp d = (Inr ''error'', d, [Discovery])"
    if "get_monitored_station_ids d = [] \<and> discovery_response inp = r"
    using that failed by (simp add: collect_once_def Let_def discover_stations_caught)
  show "\<forall>found d1.
      get_monitored_station_ids d = [] \<and> collection_response inp = r
      \<and> discover_stations (discovery_response inp) d = (Inr found, d1)
      \<and> get_monitored_station_ids d1 \<noteq> []
      \<longrightarrow> collect_once inp d = (Inr ''error'', d1, [Discovery, Fetch])"
    using failed by (auto simp: collect_once_def Let_def collect_from_caught)
qed

theorem request_exceptions_are_caught_witness:
  "fetch_all_stations TimedOut = Inl (RequestException Timeout)
   \<and> discover_stations TimedOut example_db = (Inr [], example_db)
   \<and> collect_once example_outage example_db = (Inr ''error'', example_db, [Discovery])
   \<and> fetch_all_stations (Response 503 NotJSON) = Inl (RequestException (HTTPError 503))
   \<and> collect_once example_outage example_monitoring
       = (Inr ''error'', example_monitoring, [Fetch])"
proof -
  have t: "fetch_all_stations TimedOut = Inl (RequestException Timeout)"
    and h: "fetch_all_stations (Response 503 NotJSON) = Inl (RequestException (HTTPError 503))"
    by (simp_all add: fetch_all_stations_def)
  have empty: "get_monitored_station_ids example_db = []"
    by (simp add: get_monitored_station_ids_def example_db_def)
  have ids: "get_monitored_station_ids example_monitoring \<noteq> []"
    by (simp add: example_monitoring_ids)
  have responses: "discovery_response example_outage = TimedOut"
    "collection_response example_outage = Response 503 NotJSON"
    by (simp_all add: example_outage_def)
  have "discover_stations TimedOut example_db = (Inr [], example_db)"
    and "collect_once example_outage example_db = (Inr ''error'', example_db, [Discovery])"
    using request_exceptions_are_caught [of TimedOut example_db example_outage]
      t empty responses by blast+
  moreover have "collect_once example_outage example_monitoring
      = (Inr ''error'', example_monitoring, [Fetch])"
    using request_exceptions_are_caught [of "Response 503 NotJSON" example_monitoring example_outage]
      h ids responses by blast
  ultimately show ?thesis
    using t h by simp
qed

theorem malformed_payload_counterexample:
  "fetch_all_stations (Response 200 (JSON PNull)) = Inl TypeError
   \<and> discover_stations (Response 200 (JSON PNull)) example_db = (Inl TypeError, example_db)
   \<and> collect_once example_null_feed example_monitoring
       = (Inl TypeError, example_monitoring, [Fetch])
   \<and> run_burst example_null_inputs 5 example_monitoring
       = (Inl TypeError, example_monitoring, [Cycle (Inl TypeError)])
   \<and> fetch_all_stations (Response 304 (JSON (PArray [example_near]))) = Inr [example_near]"
proof -
  have f: "fetch_all_stations (Response 200 (JSON PNull)) = Inl TypeError"
    by (simp add: fetch_all_stations_def)
  have d: "discover_stations (Response 200 (JSON PNull)) example_db = (Inl TypeError, example_db)"
    by (simp add: discover_stations_def f)
  have c: "collect_once example_null_feed example_monitoring
      = (Inl TypeError, example_monitoring, [Fetch])"
    by (simp add: collect_once_def Let_def example_monitoring_ids collect_from_def
          example_null_feed_def f)
  have b: "run_burst example_null_inputs 5 example_monitoring
      = (Inl TypeError, example_monitoring, [Cycle (Inl TypeError)])"
    by (simp add: run_burst_def range_five example_null_inputs_def c)
  have s: "fetch_all_stations (Response 304 (JSON (PArray [example_near]))) = Inr [example_near]"
    by (simp add: fetch_all_stations_def)
  show ?thesis
    using f d c b s by simp
qed

subsection \<open>Burst mode\<close>

lemma burst_five_steps:
  assumes "run_burst inputs 5 d = (res, d', steps)"
  shows "(res = Inr () \<longrightarrow>
          (\<exists>o1 o2 o3 o4 o5. steps =
             [Cycle (Inr o1), Sleep 60, Cycle (Inr o2), Sleep 60, Cycle (Inr o3), Sleep 60,
              Cycle (Inr o4), Sleep 60, Cycle (Inr o5)]))
     \<and> (\<forall>e. res = Inl e \<longrightarrow>
          (\<exists>outcomes. length outcomes < 5
             \<and> steps = concat (map (\<lambda>outcome. [Cycle (Inr outcome), Sleep 60]) outcomes)
                       @ [Cycle (Inl e)]))"
proof -
  obtain r0 a0 e0 where c0: "collect_once (inputs 0) d = (r0, a0, e0)"
    by (cases "collect_once (inputs 0) d")
  obtain r1 a1 e1 where c1: "collect_once (inputs 1) a0 = (r1, a1, e1)"
    by (cases "collect_once (inputs 1) a0")
  obtain r2 a2 e2 where c2: "collect_once (inputs 2) a1 = (r2, a2, e2)"
    by (cases "collect_once (inputs 2) a1")
  obtain r3 a3 e3 where c3: "collect_once (inputs 3) a2 = (r3, a3, e3)"
    by (cases "collect_once (inputs 3) a2")
  obtain r4 a4 e4 where c4: "collect_once (inputs 4) a3 = (r4, a4, e4)"
    by (cases "collect_once (inputs 4) a3")
  have run: "burst_loop inputs 5 d [] [0, 1, 2, 3, 4] = (res, d', steps)"
    using assms by (simp add: run_burst_def range_five)
  show ?thesis
  proof (cases r0)
    case (Inl e)
    then have "res = Inl e" "steps = [Cycle (Inl e)]"
      using run c0 by simp_all
    then show ?thesis
      by (auto intro: exI [of _ "[]"])
  next
    case o0: (Inr o0)
    show ?thesis
    proof (cases r1)
      case (Inl e)
      then have "res = Inl e" "steps = [Cycle (Inr o0), Sleep 60, Cycle (Inl e)]"
        using run c0 c1 o0 by simp_all
      then show ?thesis
        by (auto intro: exI [of _ "[o0]"])
    next
      case o1: (Inr o1)
      show ?thesis
      proof (cases r2)
        case (Inl e)
        then have "res = Inl e"
          "steps = [Cycle (Inr o0), Sleep 60, Cycle (Inr o1), Sleep 60, Cycle (Inl e)]"
          using run c0 c1 c2 o0 o1 by simp_all
        then show ?thesis
          by (auto intro: exI [of _ "[o0, o1]"])
      next
        case o2: (Inr o2)
        show ?thesis
        proof (cases r3)
          case (Inl e)
          then have "res = Inl e"
            "steps = [Cycle (Inr o0), Sleep 60, Cycle (Inr o1), Sleep 60,
                      Cycle (Inr o2), Sleep 60, Cycle (Inl e)]"
            using run c0 c1 c2 c3 o0 o1 o2 by simp_all
          then show ?thesis
            by (auto intro: exI [of _ "[o0, o1, o2]"])
        next
          case o3: (Inr o3)
          show ?thesis
          proof (cases r4)
            case (Inl e)
            then have "res = Inl e"
              "steps = [Cycle (Inr o0), Sleep 60, Cycle (Inr o1), Sleep 60,
                        Cycle (Inr o2), Sleep 60, Cycle (Inr o3), Sleep 60, Cycle (Inl e)]"
              using run c0 c1 c2 c3 c4 o0 o1 o2 o3 by simp_all
            then show ?thesis
              by (auto intro: exI [of _ "[o0, o1, o2, o3]"])
          next
            case o4: (Inr o4)
            then have "res = Inr ()"
              "steps = [Cycle (Inr o0), Sleep 60, Cycle (Inr o1), Sleep 60,
                        Cycle (Inr o2), Sleep 60, Cycle (Inr o3), Sleep 60, Cycle (Inr o4)]"
              using run c0 c1 c2 c3 c4 o0 o1 o2 o3 by simp_all
            then show ?thesis
              by simp
          qed
        qed
      qed
    qed
  qed
qed

text \<open>
  Claim C8, as amended. A burst of 5 in which every collection cycle returns performs
  exactly 5 collection cycles and exactly 4 sleeps of 60 seconds, one between each two
  consecutive cycles and none after the fifth. A cycle that raises ends the burst
  there: the steps are then the cycles before it, each followed by its sleep, and the
  raising cycle. The burst returns exactly when none of its cycles raises.
\<close>

theorem burst_five_cycles_four_sleeps:
  assumes "run_burst inputs 5 d = (res, d', steps)"
  shows "(res = Inr () \<longrightarrow>
          (\<exists>o1 o2 o3 o4 o5. steps =
             [Cycle (Inr o1), Sleep 60, Cycle (Inr o2), Sleep 60, Cycle (Inr o3), Sleep 60,
              Cycle (Inr o4), Sleep 60, Cycle (Inr o5)]))
     \<and> (\<forall>e. res = Inl e \<longrightarrow>
          (\<exists>outcomes. length outcomes < 5
             \<and> steps = concat (map (\<lambda>outcome. [Cycle (Inr outcome), Sleep 60]) outcomes)
                       @ [Cycle (Inl e)]))
     \<and> (res = Inr () \<longleftrightarrow> (\<forall>e. Cycle (Inl e) \<notin> set steps))"
proof -
  note five = burst_five_steps [OF assms]
  have returned: "res = Inr () \<longrightarrow>
      (\<exists>o1 o2 o3 o4 o5. steps =
         [Cycle (Inr o1), Sleep 60, Cycle (Inr o2), Sleep 60, Cycle (Inr o3), Sleep 60,
          Cycle (Inr o4), Sleep 60, Cycle (Inr o5)])"
    using five by (rule conjunct1)
  have raised: "\<forall>e. res = Inl e \<longrightarrow>
      (\<exists>outcomes. length outcomes < 5
         \<and> steps = concat (map (\<lambda>outcome. [Cycle (Inr outcome), Sleep 60]) outcomes)
                   @ [Cycle (Inl e)])"
    using five by (rule conjunct2)
  have "res = Inr () \<longleftrightarrow> (\<forall>e. Cycle (Inl e) \<notin> set steps)"
  proof (cases res)
    case (Inl e)
    then have "Cycle (Inl e) \<in> set steps"
      using raised by auto
    then show ?thesis
      using Inl by auto
  next
    case (Inr u)
    then have "res = Inr ()" by simp
    then show ?thesis
      using returned by auto
  qed
  then show ?thesis
    using returned raised by (intro conjI)
qed

lemma example_cycle_run_from:
  assumes "monitored_stations d = monitored_stations example_monitoring"
  shows "collect_once example_cycle d
     = (Inr ''ok'',
        d\<lparr>bike_availability := bike_availability d @ [example_reading_428, example_reading_440]\<rparr>,
        [Fetch, Insert example_reading_428, Insert example_reading_440, Commit])"
proof -
  have ids: "get_monitored_station_ids d
      = [''BikePoints_428'', ''BikePoints_432'', ''BikePoints_436'', ''BikePoints_440'']"
    using assms example_monitoring_ids by (simp add: get_monitored_station_ids_def)
  have fetched: "fetch_all_stations (collection_response example_cycle)
      = Inr [example_near, example_locked, example_far, example_full]"
    by (simp add: example_cycle_def fetch_all_stations_def)
  have now: "utc_now example_cycle = ''2024-05-01T08:00:00+00:00''"
    by (simp add: example_cycle_def)
  have loop: "collect_loop ''2024-05-01T08:00:00+00:00''
      (station_map_of [example_near, example_locked, example_far, example_full]) []
      [''BikePoints_428'', ''BikePoints_432'', ''BikePoints_436'', ''BikePoints_440'']
      = Inr [example_reading_428, example_reading_440]"
    by (simp add: example_station_map example_serviceable example_reading_near
          example_reading_full)
  show ?thesis
    by (simp add: collect_once_def ids collect_from_def Let_def fetched now loop
          del: collect_loop.simps)
qed

lemma example_burst_run:
  "run_burst example_inputs 5 example_monitoring
     = (Inr (),
        example_monitoring\<lparr>bike_availability :=
          [example_reading_428, example_reading_440, example_reading_428, example_reading_440,
           example_reading_428, example_reading_440, example_reading_428, example_reading_440,
           example_reading_428, example_reading_440]\<rparr>,
        [Cycle (Inr ''ok''), Sleep 60, Cycle (Inr ''ok''), Sleep 60, Cycle (Inr ''ok''), Sleep 60,
         Cycle (Inr ''ok''), Sleep 60, Cycle (Inr ''ok'')])"
proof -
  have empty: "bike_availability example_monitoring = []"
    by (simp add: example_monitoring_def)
  show ?thesis
    by (simp add: run_burst_def range_five example_inputs_def example_cycle_run_from empty)
qed

theorem burst_five_cycles_four_sleeps_witness:
  "run_burst example_inputs 5 example_monitoring
     = (Inr (),
        example_monitoring\<lparr>bike_availability :=
          [example_reading_428, example_reading_440, example_reading_428, example_reading_440,
           example_reading_428, example_reading_440, example_reading_428, example_reading_440,
           example_reading_428, example_reading_440]\<rparr>,
        [Cycle (Inr ''ok''), Sleep 60, Cycle (Inr ''ok''), Sleep 60, Cycle (Inr ''ok''), Sleep 60,
         Cycle (Inr ''ok''), Sleep 60, Cycle (Inr ''ok'')])
   \<and> (\<exists>o1 o2 o3 o4 o5.
        [Cycle (Inr ''ok''), Sleep 60, Cycle (Inr ''ok''), Sleep 60, Cycle (Inr ''ok''), Sleep 60,
         Cycle (Inr ''ok''), Sleep 60, Cycle (Inr ''ok'')]
        = [Cycle (Inr o1), Sleep 60, Cycle (Inr o2), Sleep 60, Cycle (Inr o3), Sleep 60,
           Cycle (Inr o4), Sleep 60, Cycle (Inr o5)])"
  using burst_five_cycles_four_sleeps [OF example_burst_run] example_burst_run
  by blast

theorem burst_counterexample:
  "run_burst example_broken_inputs 5 example_monitoring
     = (Inl TypeError,
        example_monitoring\<lparr>bike_availability :=
          [example_reading_428, example_reading_440, example_reading_428, example_reading_440]\<rparr>,
        [Cycle (Inr ''ok''), Sleep 60, Cycle (Inr ''ok''), Sleep 60, Cycle (Inl TypeError)])"
proof -
  have empty: "bike_availability example_monitoring = []"
    by (simp add: example_monitoring_def)
  have ids: "\<And>rows. get_monitored_station_ids (example_monitoring\<lparr>bike_availability := rows\<rparr>) \<noteq> []"
    using example_monitoring_ids by (simp add: get_monitored_station_ids_def)
  show ?thesis
    by (simp add: run_burst_def range_five example_broken_inputs_def example_cycle_run_from
          example_null_cycle_run ids empty)
qed

subsection \<open>The flags of a station\<close>

lemma bag_value_Cons:
  "bag_value k (p # ps) =
     (case bag_value k ps of
        Some v \<Rightarrow> Some v
      | None \<Rightarrow> if p_key p = Some (JStr k) then Some (dict_get (p_value p) (JStr '''')) else None)"
  by (auto simp: bag_value_def split: list.splits)

lemma parse_properties_loop_bag:
  assumes "k \<in> set recognised"
  shows "parse_properties_loop props ps k
     = (case bag_value k ps of None \<Rightarrow> props k | Some v \<Rightarrow> Some v)"
proof (induction ps arbitrary: props)
  case Nil
  show ?case by (simp add: bag_value_def)
next
  case (Cons p ps)
  have empty: "k \<noteq> ''''"
    using assms by (auto simp: recognised_def)
  show ?case
  proof (cases "p_key p")
    case None
    then show ?thesis
      using Cons.IH empty
      by (auto simp: bag_value_Cons dict_get_def Let_def split: option.splits)
  next
    case (Some key)
    then show ?thesis
      using Cons.IH assms
      by (cases key)
         (auto simp: bag_value_Cons dict_get_def Let_def split: option.splits)
  qed
qed

lemma parse_properties_bag:
  "k \<in> set recognised \<Longrightarrow> parse_properties ps k = bag_value k ps"
  by (simp add: parse_properties_def parse_properties_loop_bag split: option.splits)

lemma bag_value_None: "bag_value k ps = None \<longleftrightarrow> (\<forall>p \<in> set ps. p_key p \<noteq> Some (JStr k))"
proof -
  have "bag_value k ps = None \<longleftrightarrow> filter (\<lambda>p. p_key p = Some (JStr k)) ps = []"
    by (simp add: bag_value_def split: list.splits)
  then show ?thesis
    by (simp add: filter_empty_conv)
qed

lemma not_serviceable_bag:
  "not_serviceable (station_props station) \<longleftrightarrow>
     bag_value ''Installed'' (dict_get (additionalProperties station) []) = Some (JStr ''false'')
     \<or> bag_value ''Locked'' (dict_get (additionalProperties station) []) = Some (JStr ''true'')"
  by (simp add: not_serviceable_def station_props_def parse_properties_bag recognised_def)

lemma collect_once_loaded:
  assumes "collect_once inp d = (res, d', evs)"
    and "get_monitored_station_ids d' \<noteq> []"
  shows "\<exists>d1 evs1. collect_from inp d1 (get_monitored_station_ids d') = (res, d', evs1)
     \<and> bike_availability d1 = bike_availability d
     \<and> (evs = evs1 \<or> evs = Discovery # evs1)"
proof (cases "get_monitored_station_ids d = []")
  case False
  then have run: "collect_from inp d (get_monitored_station_ids d) = (res, d', evs)"
    using assms(1) by (simp add: collect_once_nonempty)
  then have "get_monitored_station_ids d' = get_monitored_station_ids d"
    using collect_from_rows [OF run] by (simp add: get_monitored_station_ids_def)
  then show ?thesis
    using run by auto
next
  case True
  obtain r1 d1 where disc: "discover_stations (discovery_response inp) d = (r1, d1)"
    by (cases "discover_stations (discovery_response inp) d")
  have same: "bike_availability d1 = bike_availability d"
    using disc by (rule discover_stations_readings)
  show ?thesis
  proof (cases r1)
    case (Inl e)
    then have "d' = d1"
      using assms(1) True disc by (simp add: collect_once_def Let_def)
    moreover have "d1 = d"
      using disc Inl discover_stations_raises by blast
    ultimately show ?thesis
      using assms(2) True by simp
  next
    case (Inr found)
    show ?thesis
    proof (cases "get_monitored_station_ids d1 = []")
      case True
      then have "d' = d1"
        using assms(1) \<open>get_monitored_station_ids d = []\<close> disc Inr
        by (simp add: collect_once_def Let_def)
      then show ?thesis
        using assms(2) True by simp
    next
      case False
      obtain evs1 where
        rest: "collect_from inp d1 (get_monitored_station_ids d1) = (res, d', evs1)"
        and evs: "evs = Discovery # evs1"
        using assms(1) True disc Inr False
        by (auto simp: collect_once_def Let_def split: prod.splits)
      have "get_monitored_station_ids d' = get_monitored_station_ids d1"
        using collect_from_rows [OF rest] by (simp add: get_monitored_station_ids_def)
      then show ?thesis
        using rest evs same by auto
    qed
  qed
qed

lemma collect_from_fetched:
  assumes "collect_from inp d1 ids = (res, d', evs1)"
    and "fetch_all_stations (collection_response inp) = Inr stations"
  shows "(\<exists>ins. collect_loop (utc_now inp) (station_map_of stations) [] ids = Inr ins
            \<and> res = Inr ''ok''
            \<and> d' = d1\<lparr>bike_availability := bike_availability d1 @ ins\<rparr>
            \<and> evs1 = Fetch # map Insert ins @ [Commit])
     \<or> (\<exists>e ins. collect_loop (utc_now inp) (station_map_of stations) [] ids = Inl (e, ins)
            \<and> res = Inl e \<and> d' = d1 \<and> evs1 = Fetch # map Insert ins)"
  using assms
  by (cases "collect_loop (utc_now inp) (station_map_of stations) [] ids")
     (auto simp: collect_from_def Let_def)

lemma not_serviceable_flagged: "not_serviceable (station_props station) \<longleftrightarrow> flagged station"
  by (simp add: flagged_def not_serviceable_bag)

lemma unflagged_without_keys:
  assumes "\<forall>p \<in> set (dict_get (additionalProperties station) []).
      p_key p \<noteq> Some (JStr ''Installed'') \<and> p_key p \<noteq> Some (JStr ''Locked'')"
  shows "\<not> flagged station"
proof -
  have "bag_value ''Installed'' (dict_get (additionalProperties station) []) = None"
    and "bag_value ''Locked'' (dict_get (additionalProperties station) []) = None"
    using assms by (simp_all add: bag_value_None)
  then show ?thesis
    by (simp add: flagged_def)
qed

lemma written_rows:
  assumes "collect_once inp d = (res, d', evs)"
  shows "\<forall>row \<in> set (written d d'). Insert row \<in> set evs"
proof -
  obtain new where "bike_availability d' = bike_availability d @ new"
    and "\<forall>row \<in> set new. Insert row \<in> set evs"
    using collect_once_rows [OF assms] by blast
  then show ?thesis
    by (simp add: written_def)
qed

text \<open>
  Claim C9. Only the exact strings skip a station. For a monitored station that the
  fetched catalogue contains, the test before the insert holds exactly when the bag holds
  the string \<^verbatim>\<open>"false"\<close> for \<^verbatim>\<open>Installed\<close> or the string \<^verbatim>\<open>"true"\<close> for \<^verbatim>\<open>Locked\<close>; a bag
  with neither key never holds them. A station that is not flagged so is not skipped: the
  cycle builds its reading, and a cycle that returns has inserted and committed it (the
  other way for a cycle to end is the exception of a reading that cannot be built). A
  station that is flagged so gets no reading.
\<close>

theorem only_exact_flag_strings_skip_a_station:
  assumes "collect_once inp d = (res, d', evs)"
    and "fetch_all_stations (collection_response inp) = Inr stations"
    and "sid \<in> set (get_monitored_station_ids d')"
    and "station_map_of stations sid = Some station"
  shows "(not_serviceable (station_props station) \<longleftrightarrow> flagged station)
     \<and> ((\<forall>p \<in> set (dict_get (additionalProperties station) []).
            p_key p \<noteq> Some (JStr ''Installed'') \<and> p_key p \<noteq> Some (JStr ''Locked''))
          \<longrightarrow> \<not> flagged station)
     \<and> (\<not> flagged station \<longrightarrow>
          (\<exists>row. reading_of (utc_now inp) station (station_props station) = Inr row
             \<and> r_station_id row = sid \<and> res = Inr ''ok''
             \<and> Insert row \<in> set evs \<and> row \<in> set (written d d'))
          \<or> (\<exists>e. res = Inl e))
     \<and> (flagged station \<longrightarrow>
          (\<forall>row. Insert row \<in> set evs \<longrightarrow> r_station_id row \<noteq> sid)
          \<and> (\<forall>row \<in> set (written d d'). r_station_id row \<noteq> sid))"
proof (intro conjI impI)
  show "not_serviceable (station_props station) \<longleftrightarrow> flagged station"
    by (rule not_serviceable_flagged)
next
  assume "\<forall>p \<in> set (dict_get (additionalProperties station) []).
      p_key p \<noteq> Some (JStr ''Installed'') \<and> p_key p \<noteq> Some (JStr ''Locked'')"
  then show "\<not> flagged station"
    by (rule unflagged_without_keys)
next
  assume "\<not> flagged station"
  then have ok: "\<not> not_serviceable (station_props station)"
    by (simp add: not_serviceable_flagged)
  have "get_monitored_station_ids d' \<noteq> []"
    using assms(3) by auto
  from collect_once_loaded [OF assms(1) this] obtain d1 evs1 where
    rest: "collect_from inp d1 (get_monitored_station_ids d') = (res, d', evs1)" and
    same: "bike_availability d1 = bike_availability d" and
    evs: "evs = evs1 \<or> evs = Discovery # evs1"
    by blast
  from collect_from_fetched [OF rest assms(2)]
  show "(\<exists>row. reading_of (utc_now inp) station (station_props station) = Inr row
           \<and> r_station_id row = sid \<and> res = Inr ''ok''
           \<and> Insert row \<in> set evs \<and> row \<in> set (written d d'))
        \<or> (\<exists>e. res = Inl e)"
  proof
    assume "\<exists>ins. collect_loop (utc_now inp) (station_map_of stations) []
          (get_monitored_station_ids d') = Inr ins
        \<and> res = Inr ''ok''
        \<and> d' = d1\<lparr>bike_availability := bike_availability d1 @ ins\<rparr>
        \<and> evs1 = Fetch # map Insert ins @ [Commit]"
    then obtain ins where
      loop: "collect_loop (utc_now inp) (station_map_of stations) []
          (get_monitored_station_ids d') = Inr ins" and
      res: "res = Inr ''ok''" and
      d': "d' = d1\<lparr>bike_availability := bike_availability d1 @ ins\<rparr>" and
      evs1: "evs1 = Fetch # map Insert ins @ [Commit]"
      by blast
    obtain row where row: "row \<in> set ins"
      and built: "reading_of (utc_now inp) station (station_props station) = Inr row"
      using collect_loop_complete [OF loop assms(3) assms(4) ok] by blast
    have "r_station_id row = sid"
      using reading_of_fields [OF built] station_map_of_Some [OF assms(4)] by simp
    moreover have "Insert row \<in> set evs"
      using row evs evs1 by auto
    moreover have "row \<in> set (written d d')"
      using row d' same by (simp add: written_def)
    ultimately show ?thesis
      using built res by blast
  next
    assume "\<exists>e ins. collect_loop (utc_now inp) (station_map_of stations) []
          (get_monitored_station_ids d') = Inl (e, ins)
        \<and> res = Inl e \<and> d' = d1 \<and> evs1 = Fetch # map Insert ins"
    then show ?thesis by blast
  qed
next
  assume flag: "flagged station"
  have inserted: "\<forall>row. Insert row \<in> set evs \<longrightarrow> r_station_id row \<noteq> sid"
  proof (intro allI impI)
    fix row assume "Insert row \<in> set evs"
    then have "cycle_rows inp (get_monitored_station_ids d') row"
      using collect_once_rows [OF assms(1)] by blast
    from cycle_rows_origin [OF this] obtain stations' station' where
      "fetch_all_stations (collection_response inp) = Inr stations'" and
      st: "station_map_of stations' (r_station_id row) = Some station'"
          "\<not> not_serviceable (station_props station')"
      by blast
    then have same: "stations' = stations"
      using assms(2) by simp
    show "r_station_id row \<noteq> sid"
    proof
      assume "r_station_id row = sid"
      then have "station' = station"
        using st(1) same assms(4) by simp
      then show False
        using st(2) flag by (simp add: not_serviceable_flagged)
    qed
  qed
  show "\<forall>row. Insert row \<in> set evs \<longrightarrow> r_station_id row \<noteq> sid"
    by (rule inserted)
  show "\<forall>row \<in> set (written d d'). r_station_id row \<noteq> sid"
    using inserted written_rows [OF assms(1)] by blast
qed

lemma example_flags:
  "\<not> flagged example_near" "\<not> flagged example_odd_flags" "flagged example_locked"
  by (simp_all add: flagged_def bag_value_def dict_get_def
        example_near_def example_odd_flags_def example_locked_def)

lemma example_reading_odd_flags:
  "reading_of ''2024-05-01T08:00:00+00:00'' example_odd_flags (station_props example_odd_flags)
     = Inr example_reading_436"
  by (simp add: station_props_def parse_properties_def recognised_def
        reading_of_def and_then_def dict_get_def int_conv example_odd_flags_def
        example_reading_436_def)

lemma example_flags_cycle_fetched:
  "fetch_all_stations (collection_response example_flags_cycle)
     = Inr [example_near, example_odd_flags, example_locked]"
  by (simp add: example_flags_cycle_def fetch_all_stations_def)

lemma example_flags_station_map:
  "station_map_of [example_near, example_odd_flags, example_locked] ''BikePoints_428''
     = Some example_near"
  "station_map_of [example_near, example_odd_flags, example_locked] ''BikePoints_432''
     = Some example_locked"
  "station_map_of [example_near, example_odd_flags, example_locked] ''BikePoints_436''
     = Some example_odd_flags"
  "station_map_of [example_near, example_odd_flags, example_locked] ''BikePoints_440''
     = None"
  by (simp_all add: station_map_of_def example_idents example_odd_flags_def)

lemma example_flags_cycle_run:
  "collect_once example_flags_cycle example_monitoring
     = (Inr ''ok'',
        example_monitoring\<lparr>bike_availability := [example_reading_428, example_reading_436]\<rparr>,
        [Fetch, Insert example_reading_428, Insert example_reading_436, Commit])"
proof -
  have now: "utc_now example_flags_cycle = ''2024-05-01T08:00:00+00:00''"
    by (simp add: example_flags_cycle_def)
  have loop: "collect_loop ''2024-05-01T08:00:00+00:00''
      (station_map_of [example_near, example_odd_flags, example_locked]) []
      [''BikePoints_428'', ''BikePoints_432'', ''BikePoints_436'', ''BikePoints_440'']
      = Inr [example_reading_428, example_reading_436]"
    using example_flags
    by (simp add: example_flags_station_map not_serviceable_flagged example_reading_near
          example_reading_odd_flags)
  have empty: "bike_availability example_monitoring = []"
    by (simp add: example_monitoring_def)
  show ?thesis
    by (simp add: collect_once_def example_monitoring_ids collect_from_def Let_def
          example_flags_cycle_fetched now loop empty del: collect_loop.simps)
qed

theorem only_exact_flag_strings_skip_a_station_witness:
  "collect_once example_flags_cycle example_monitoring
     = (Inr ''ok'',
        example_monitoring\<lparr>bike_availability := [example_reading_428, example_reading_436]\<rparr>,
        [Fetch, Insert example_reading_428, Insert example_reading_436, Commit])
   \<and> \<not> flagged example_near \<and> \<not> flagged example_odd_flags \<and> flagged example_locked
   \<and> (\<exists>row. row \<in> set [example_reading_428, example_reading_436]
          \<and> r_station_id row = ''BikePoints_428'')
   \<and> (\<exists>row. row \<in> set [example_reading_428, example_reading_436]
          \<and> r_station_id row = ''BikePoints_436'')
   \<and> ''BikePoints_432'' \<notin> r_station_id ` set [example_reading_428, example_reading_436]"
proof -
  let ?d' = "example_monitoring\<lparr>bike_availability := [example_reading_428, example_reading_436]\<rparr>"
  have ids: "get_monitored_station_ids ?d'
      = [''BikePoints_428'', ''BikePoints_432'', ''BikePoints_436'', ''BikePoints_440'']"
    using example_monitoring_ids by (simp add: get_monitored_station_ids_def)
  have wr: "written example_monitoring ?d' = [example_reading_428, example_reading_436]"
    by (simp add: written_def example_monitoring_def)
  have "\<exists>row. row \<in> set (written example_monitoring ?d') \<and> r_station_id row = ''BikePoints_428''"
    using only_exact_flag_strings_skip_a_station
      [OF example_flags_cycle_run example_flags_cycle_fetched _ example_flags_station_map(1)]
      example_flags(1) ids
    by auto
  moreover
  have "\<exists>row. row \<in> set (written example_monitoring ?d') \<and> r_station_id row = ''BikePoints_436''"
    using only_exact_flag_strings_skip_a_station
      [OF example_flags_cycle_run example_flags_cycle_fetched _ example_flags_station_map(3)]
      example_flags(2) ids
    by auto
  moreover
  have "\<forall>row \<in> set (written example_monitoring ?d'). r_station_id row \<noteq> ''BikePoints_432''"
    using only_exact_flag_strings_skip_a_station
      [OF example_flags_cycle_run example_flags_cycle_fetched _ example_flags_station_map(2)]
      example_flags(3) ids
    by auto
  ultimately show ?thesis
    using example_flags_cycle_run example_flags unfolding wr by auto
qed

subsection \<open>The counts of a reading\<close>

lemma reading_of_absent_zero:
  assumes "reading_of now_utc station props = Inr row"
  shows "(props ''NbBikes'' = None \<longrightarrow> r_available_bikes row = 0)
     \<and> (props ''NbStandardBikes'' = None \<longrightarrow> r_standard_bikes row = 0)
     \<and> (props ''NbEBikes'' = None \<longrightarrow> r_ebikes row = 0)
     \<and> (props ''NbEmptyDocks'' = None \<longrightarrow> r_empty_docks row = 0)
     \<and> (props ''NbDocks'' = None \<longrightarrow> r_total_docks row = 0)"
  using assms unfolding reading_of_def and_then_Inr
  by (auto simp: dict_get_def py_int_def sqlite_integer_def split: if_splits)

lemma reading_of_unparsable:
  assumes "k \<in> set numeric_keys" and "props k = Some v" and "py_int v = Inl e0"
  shows "\<exists>e. reading_of now_utc station props = Inl e"
proof (cases "reading_of now_utc station props")
  case (Inl e)
  then show ?thesis by blast
next
  case (Inr row)
  then have "\<forall>key \<in> set numeric_keys. \<exists>n. py_int (dict_get (props key) (JInt 0)) = Inr n"
    unfolding reading_of_def and_then_Inr numeric_keys_def by auto
  then obtain n where "py_int (dict_get (props k) (JInt 0)) = Inr n"
    using assms(1) by blast
  then show ?thesis
    using assms(2,3) by (simp add: dict_get_def)
qed

lemma collect_loop_raises:
  assumes "sid \<in> set ids" and "station_map sid = Some station"
    and "\<not> not_serviceable (station_props station)"
    and "reading_of now_utc station (station_props station) = Inl e"
  shows "\<exists>e' ins. collect_loop now_utc station_map acc ids = Inl (e', ins)"
proof (cases "collect_loop now_utc station_map acc ids")
  case (Inl failure)
  then show ?thesis by (cases failure) simp
next
  case (Inr rows)
  from collect_loop_complete [OF Inr assms(1-3)] show ?thesis
    using assms(4) by simp
qed

text \<open>
  Claim C10. A count is taken as zero only when its key is absent from the bag. When a
  monitored station of the catalogue that is not flagged holds, under one of the five
  count keys, a value that \<^verbatim>\<open>int\<close> does not convert, the parameters of its insert raise:
  the cycle ends with that or an earlier exception instead of returning \<^verbatim>\<open>"ok"\<close> or
  \<^verbatim>\<open>"error"\<close>, there is no commit, and the table of readings is as before the cycle,
  whatever was inserted before.
\<close>

theorem unparsable_count_aborts_the_cycle:
  "(reading_of now_utc station props = Inr row \<longrightarrow>
        (props ''NbBikes'' = None \<longrightarrow> r_available_bikes row = 0)
      \<and> (props ''NbStandardBikes'' = None \<longrightarrow> r_standard_bikes row = 0)
      \<and> (props ''NbEBikes'' = None \<longrightarrow> r_ebikes row = 0)
      \<and> (props ''NbEmptyDocks'' = None \<longrightarrow> r_empty_docks row = 0)
      \<and> (props ''NbDocks'' = None \<longrightarrow> r_total_docks row = 0))
   \<and> (k \<in> set numeric_keys \<and> props k = Some v \<and> py_int v = Inl e0
        \<longrightarrow> (\<exists>e. reading_of now_utc station props = Inl e))
   \<and> (collect_once inp d = (res, d', evs)
        \<and> fetch_all_stations (collection_response inp) = Inr stations
        \<and> sid \<in> set (get_monitored_station_ids d')
        \<and> station_map_of stations sid = Some st
        \<and> \<not> flagged st
        \<and> k \<in> set numeric_keys \<and> station_props st k = Some v \<and> py_int v = Inl e0
        \<longrightarrow> (\<exists>e. res = Inl e)
          \<and> bike_availability d' = bike_availability d
          \<and> Commit \<notin> set evs)"
proof (intro conjI impI)
  assume "reading_of now_utc station props = Inr row"
  from reading_of_absent_zero [OF this]
  show "props ''NbBikes'' = None \<Longrightarrow> r_available_bikes row = 0"
    and "props ''NbStandardBikes'' = None \<Longrightarrow> r_standard_bikes row = 0"
    and "props ''NbEBikes'' = None \<Longrightarrow> r_ebikes row = 0"
    and "props ''NbEmptyDocks'' = None \<Longrightarrow> r_empty_docks row = 0"
    and "props ''NbDocks'' = None \<Longrightarrow> r_total_docks row = 0"
    by simp_all
next
  assume "k \<in> set numeric_keys \<and> props k = Some v \<and> py_int v = Inl e0"
  then show "\<exists>e. reading_of now_utc station props = Inl e"
    using reading_of_unparsable by blast
next
  assume h: "collect_once inp d = (res, d', evs)
      \<and> fetch_all_stations (collection_response inp) = Inr stations
      \<and> sid \<in> set (get_monitored_station_ids d')
      \<and> station_map_of stations sid = Some st
      \<and> \<not> flagged st
      \<and> k \<in> set numeric_keys \<and> station_props st k = Some v \<and> py_int v = Inl e0"
  then have ok: "\<not> not_serviceable (station_props st)"
    by (simp add: not_serviceable_flagged)
  obtain e1 where bad: "reading_of (utc_now inp) st (station_props st) = Inl e1"
    using h reading_of_unparsable by blast
  have "get_monitored_station_ids d' \<noteq> []"
    using h by auto
  with h collect_once_loaded obtain d1 evs1 where
    rest: "collect_from inp d1 (get_monitored_station_ids d') = (res, d', evs1)" and
    same: "bike_availability d1 = bike_availability d" and
    evs: "evs = evs1 \<or> evs = Discovery # evs1"
    by blast
  obtain e' ins where loop: "collect_loop (utc_now inp) (station_map_of stations) []
      (get_monitored_station_ids d') = Inl (e', ins)"
    using collect_loop_raises [OF _ _ ok bad] h by blast
  have fetched: "fetch_all_stations (collection_response inp) = Inr stations"
    using h by simp
  have outcome: "res = Inl e' \<and> d' = d1 \<and> evs1 = Fetch # map Insert ins"
    using collect_from_fetched [OF rest fetched] loop by auto
  show "\<exists>e. res = Inl e"
    using outcome by blast
  show "bike_availability d' = bike_availability d"
    using outcome same by simp
  show "Commit \<notin> set evs"
    using outcome evs by auto
qed

lemma example_garbled_props:
  "station_props example_garbled ''NbDocks'' = Some (JStr ''n/a'')"
  "py_int (JStr ''n/a'') = Inl ValueError"
  "\<not> flagged example_garbled"
  by (simp_all add: station_props_def parse_properties_def recognised_def dict_get_def
        example_garbled_def int_conv flagged_def bag_value_def)

lemma example_garbled_fetched:
  "fetch_all_stations (collection_response example_garbled_cycle)
     = Inr [example_near, example_garbled]"
  by (simp add: example_garbled_cycle_def fetch_all_stations_def)

lemma example_garbled_station_map:
  "station_map_of [example_near, example_garbled] ''BikePoints_428'' = Some example_near"
  "station_map_of [example_near, example_garbled] ''BikePoints_432'' = None"
  "station_map_of [example_near, example_garbled] ''BikePoints_436'' = None"
  "station_map_of [example_near, example_garbled] ''BikePoints_440'' = Some example_garbled"
  by (simp_all add: station_map_of_def example_idents example_garbled_def)

lemma example_garbled_reading:
  "reading_of ''2024-05-01T08:00:00+00:00'' example_garbled (station_props example_garbled)
     = Inl ValueError"
  by (simp add: station_props_def parse_properties_def recognised_def
        reading_of_def and_then_def dict_get_def int_conv example_garbled_def)

lemma example_garbled_cycle_run:
  "collect_once example_garbled_cycle example_monitoring
     = (Inl ValueError, example_monitoring, [Fetch, Insert example_reading_428])"
proof -
  have now: "utc_now example_garbled_cycle = ''2024-05-01T08:00:00+00:00''"
    by (simp add: example_garbled_cycle_def)
  have loop: "collect_loop ''2024-05-01T08:00:00+00:00''
      (station_map_of [example_near, example_garbled]) []
      [''BikePoints_428'', ''BikePoints_432'', ''BikePoints_436'', ''BikePoints_440'']
      = Inl (ValueError, [example_reading_428])"
    using example_flags(1) example_garbled_props(3)
    by (simp add: example_garbled_station_map not_serviceable_flagged example_reading_near
          example_garbled_reading)
  show ?thesis
    by (simp add: collect_once_def example_monitoring_ids collect_from_def Let_def
          example_garbled_fetched now loop del: collect_loop.simps)
qed

theorem unparsable_count_aborts_the_cycle_witness:
  "collect_once example_garbled_cycle example_monitoring
     = (Inl ValueError, example_monitoring, [Fetch, Insert example_reading_428])
   \<and> station_props example_garbled ''NbDocks'' = Some (JStr ''n/a'')
   \<and> py_int (JStr ''n/a'') = Inl ValueError
   \<and> (\<exists>e. reading_of ''2024-05-01T08:00:00+00:00'' example_garbled
              (station_props example_garbled) = Inl e)
   \<and> Commit \<notin> set [Fetch, Insert example_reading_428]
   \<and> r_available_bikes example_reading_428 = 0"
proof -
  have key: "''NbDocks'' \<in> set numeric_keys"
    by (simp add: numeric_keys_def)
  have ids: "''BikePoints_440'' \<in> set (get_monitored_station_ids example_monitoring)"
    by (simp add: example_monitoring_ids)
  have absent: "station_props example_near ''NbBikes'' = None"
    by (simp add: example_props_near)
  note inst = unparsable_count_aborts_the_cycle
    [of "''2024-05-01T08:00:00+00:00''" example_near "station_props example_near"
       example_reading_428 "''NbDocks''" "JStr ''n/a''" ValueError
       example_garbled_cycle example_monitoring "Inl ValueError" example_monitoring
       "[Fetch, Insert example_reading_428]" "[example_near, example_garbled]"
       "''BikePoints_440''" example_garbled]
  have "r_available_bikes example_reading_428 = 0"
    using inst example_reading_near absent by blast
  moreover have "Commit \<notin> set [Fetch, Insert example_reading_428]"
    using inst example_garbled_cycle_run example_garbled_fetched ids
      example_garbled_station_map(4) example_garbled_props key by blast
  moreover have "\<exists>e. reading_of ''2024-05-01T08:00:00+00:00'' example_garbled
      (station_props example_garbled) = Inl e"
    using unparsable_count_aborts_the_cycle
      [of _ _ "station_props example_garbled" _ "''NbDocks''" "JStr ''n/a''" ValueError]
      key example_garbled_props by blast
  ultimately show ?thesis
    using example_garbled_cycle_run example_garbled_props by simp
qed

end
